theory Spec2Isabelle
  imports Complex_Main "HOL-Library.Sublist"
begin

section \<open>JavaScript values used by \<^verbatim>\<open>server.ts\<close>\<close>

text \<open>
  A JavaScript string is a sequence of UTF-16 code units; a code unit is modelled by its
  number, so that \<^verbatim>\<open>substring\<close> and \<^verbatim>\<open>length\<close> count what the source counts and the
  em dash of the window-title pattern is the single unit 8212.  \<open>str\<close> embeds an ASCII
  literal.
\<close>

type_synonym jsstring = "nat list"

definition str :: "string \<Rightarrow> jsstring" where
  "str s = map of_char s"

text \<open>
  A JavaScript number is \<open>NaN\<close> or a numeric value.  The numeric values are modelled by
  exact rationals in place of IEEE doubles: \<^verbatim>\<open>parseInt\<close> of a digit string, the divisions
  by powers of two and the sums of the source are exact in doubles as long as the integers
  involved stay below \<open>2^53\<close>, which is the range the model stands for.
\<close>

datatype jsnum = NaN | Num rat

fun js_add :: "jsnum \<Rightarrow> jsnum \<Rightarrow> jsnum" where
  "js_add (Num a) (Num b) = Num (a + b)"
| "js_add _ _ = NaN"

fun js_sub :: "jsnum \<Rightarrow> jsnum \<Rightarrow> jsnum" where
  "js_sub (Num a) (Num b) = Num (a - b)"
| "js_sub _ _ = NaN"

fun js_mul :: "jsnum \<Rightarrow> jsnum \<Rightarrow> jsnum" where
  "js_mul (Num a) (Num b) = Num (a * b)"
| "js_mul _ _ = NaN"

text \<open>Every divisor in the source is a positive constant or \<^verbatim>\<open>Math.max(n, 1)\<close>.\<close>

fun js_div :: "jsnum \<Rightarrow> jsnum \<Rightarrow> jsnum" where
  "js_div (Num a) (Num b) = Num (a / b)"
| "js_div _ _ = NaN"

text \<open>\<^verbatim>\<open>Math.round\<close>: the nearest integer, a tie going up.\<close>

fun math_round :: "jsnum \<Rightarrow> jsnum" where
  "math_round (Num a) = Num (of_int \<lfloor>a + 1 / 2\<rfloor>)"
| "math_round NaN = NaN"

text \<open>Comparisons with \<open>NaN\<close> are false.\<close>

fun js_lt :: "jsnum \<Rightarrow> jsnum \<Rightarrow> bool" where
  "js_lt (Num a) (Num b) = (a < b)"
| "js_lt _ _ = False"

definition js_gt :: "jsnum \<Rightarrow> jsnum \<Rightarrow> bool" where
  "js_gt a b = js_lt b a"

fun js_ge :: "jsnum \<Rightarrow> jsnum \<Rightarrow> bool" where
  "js_ge (Num a) (Num b) = (b \<le> a)"
| "js_ge _ _ = False"

text \<open>The falsy numbers are \<open>0\<close> and \<open>NaN\<close>.\<close>

fun truthy_num :: "jsnum \<Rightarrow> bool" where
  "truthy_num (Num a) = (a \<noteq> 0)"
| "truthy_num NaN = False"

subsection \<open>Character classes\<close>

text \<open>The class \<^verbatim>\<open>\s\<close> of a regular expression, which is also what \<^verbatim>\<open>trim\<close> strips.\<close>

definition is_ws :: "nat \<Rightarrow> bool" where
  "is_ws c = (c = 9 \<or> c = 10 \<or> c = 11 \<or> c = 12 \<or> c = 13 \<or> c = 32 \<or> c = 160
     \<or> c = 5760 \<or> (8192 \<le> c \<and> c \<le> 8202) \<or> c = 8232 \<or> c = 8233 \<or> c = 8239
     \<or> c = 8287 \<or> c = 12288 \<or> c = 65279)"

definition is_digit :: "nat \<Rightarrow> bool" where
  "is_digit c = (48 \<le> c \<and> c \<le> 57)"

subsection \<open>String operations\<close>

definition trim :: "jsstring \<Rightarrow> jsstring" where
  "trim s = rev (dropWhile is_ws (rev (dropWhile is_ws s)))"

definition substring0 :: "nat \<Rightarrow> jsstring \<Rightarrow> jsstring" where
  "substring0 n s = take n s"

fun includes_str :: "jsstring \<Rightarrow> jsstring \<Rightarrow> bool" where
  "includes_str [] sub = (sub = [])"
| "includes_str (c # cs) sub = (prefix sub (c # cs) \<or> includes_str cs sub)"

fun join :: "jsstring \<Rightarrow> jsstring list \<Rightarrow> jsstring" where
  "join sep [] = []"
| "join sep [x] = x"
| "join sep (x # y # ys) = x @ sep @ join sep (y # ys)"

text \<open>
  \<^verbatim>\<open>s.split(sep)\<close> for a non-empty separator string: the pieces between the successive
  occurrences of \<open>sep\<close>, found from the left; \<open>cur\<close> is the piece being read, reversed.
\<close>

function split_from :: "jsstring \<Rightarrow> jsstring \<Rightarrow> jsstring \<Rightarrow> jsstring list" where
  "split_from sep cur [] = [rev cur]"
| "split_from sep cur (c # cs) =
     (if sep \<noteq> [] \<and> prefix sep (c # cs)
      then rev cur # split_from sep [] (drop (length sep) (c # cs))
      else split_from sep (c # cur) cs)"
  by pat_completeness auto
termination
  by (relation "measure (\<lambda>(sep, cur, s). length s)") (auto simp: neq_Nil_conv)

definition split :: "jsstring \<Rightarrow> jsstring \<Rightarrow> jsstring list" where
  "split sep s = split_from sep [] s"

text \<open>
  \<^verbatim>\<open>s.split(/\s+/)\<close>: the pieces between the maximal runs of white space; a run at the
  start or the end of \<open>s\<close> leaves an empty piece there, and the empty string gives \<open>['''']\<close>.
\<close>

function split_ws :: "jsstring \<Rightarrow> jsstring list" where
  "split_ws s =
     (let piece = takeWhile (\<lambda>c. \<not> is_ws c) s; rest = dropWhile (\<lambda>c. \<not> is_ws c) s
      in if rest = [] then [piece] else piece # split_ws (dropWhile is_ws rest))"
  by pat_completeness auto
termination
proof (relation "measure length")
  show "wf (measure length)" by simp
next
  fix s :: jsstring and piece rest
  assume r: "rest = dropWhile (\<lambda>c. \<not> is_ws c) s" and ne: "rest \<noteq> []"
  from ne obtain a list where al: "rest = a # list" by (cases rest) auto
  have "dropWhile (\<lambda>c. \<not> is_ws c) s = a # list"
    using r al by simp
  then have "is_ws a"
    using hd_dropWhile [of "\<lambda>c. \<not> is_ws c" s] by simp
  then have "dropWhile is_ws rest = dropWhile is_ws list"
    using al by simp
  then have "length (dropWhile is_ws rest) < length rest"
    using al length_dropWhile_le [of is_ws list] by simp
  also have "length rest \<le> length s"
    using r by (simp add: length_dropWhile_le)
  finally show "(dropWhile is_ws rest, s) \<in> measure length" by simp
qed

declare split_ws.simps [simp del]

text \<open>An array read \<^verbatim>\<open>xs[i]\<close>: \<open>None\<close> is \<^verbatim>\<open>undefined\<close>.\<close>

definition elem_at :: "'a list \<Rightarrow> nat \<Rightarrow> 'a option" where
  "elem_at xs i = (if i < length xs then Some (xs ! i) else None)"

subsection \<open>\<^verbatim>\<open>parseInt\<close>\<close>

definition digit_value :: "nat \<Rightarrow> nat option" where
  "digit_value c =
     (if 48 \<le> c \<and> c \<le> 57 then Some (c - 48)
      else if 97 \<le> c \<and> c \<le> 122 then Some (c - 87)
      else if 65 \<le> c \<and> c \<le> 90 then Some (c - 55)
      else None)"

definition radix_digit :: "nat \<Rightarrow> nat \<Rightarrow> bool" where
  "radix_digit R c = (case digit_value c of Some d \<Rightarrow> d < R | None \<Rightarrow> False)"

definition digits_value :: "nat \<Rightarrow> jsstring \<Rightarrow> nat" where
  "digits_value R z =
     foldl (\<lambda>acc c. acc * R + (case digit_value c of Some d \<Rightarrow> d | None \<Rightarrow> 0)) 0 z"

text \<open>
  \<^verbatim>\<open>parseInt(s)\<close> with no radix: leading white space and one sign are skipped, a prefix
  \<^verbatim>\<open>0x\<close> selects radix 16, and the longest run of digits is read; no digit gives \<open>NaN\<close>.
\<close>

definition parseInt :: "jsstring \<Rightarrow> jsnum" where
  "parseInt s =
     (let s0 = dropWhile is_ws s;
          neg = (s0 \<noteq> [] \<and> hd s0 = 45);
          s1 = (if s0 \<noteq> [] \<and> (hd s0 = 43 \<or> hd s0 = 45) then tl s0 else s0);
          hex = (prefix (str ''0x'') s1 \<or> prefix (str ''0X'') s1);
          R = (if hex then 16 else 10);
          s2 = (if hex then drop 2 s1 else s1);
          z = takeWhile (radix_digit R) s2
      in if z = [] then NaN
         else Num (if neg then - of_nat (digits_value R z) else of_nat (digits_value R z)))"

text \<open>\<^verbatim>\<open>parseInt(undefined)\<close> reads the string \<^verbatim>\<open>"undefined"\<close>.\<close>

definition parseInt_arg :: "jsstring option \<Rightarrow> jsnum" where
  "parseInt_arg a = (case a of None \<Rightarrow> parseInt (str ''undefined'') | Some s \<Rightarrow> parseInt s)"

section \<open>Data model\<close>

record AppMemory =
  name :: jsstring
  memory :: jsnum
  processes :: jsnum
  color :: jsstring

record ChromeTab =
  title :: jsstring
  url :: jsstring
  memory :: jsnum

record PythonProcess =
  script :: jsstring
  memory :: jsnum
  pid :: jsnum

record ClaudeSession =
  workingDir :: jsstring
  projectName :: jsstring
  memory :: jsnum
  pid :: jsnum
  isSubagent :: bool

record VSCodeWorkspace =
  path :: jsstring
  memory :: jsnum
  processes :: jsnum

section \<open>Sorting by memory\<close>

text \<open>
  \<^verbatim>\<open>xs.sort((a, b) => b.memory - a.memory)\<close>.  The comparator's result \<open>NaN\<close> counts as
  \<open>0\<close>.  \<^verbatim>\<open>Array.prototype.sort\<close> is stable; it is modelled by the stable insertion sort,
  which is the only possible result whenever the comparator is consistent: when no key is
  \<open>NaN\<close>, and also when the comparator is \<open>0\<close> on every pair (all keys equal, or two
  entries of which one is \<open>NaN\<close>), where a stable sort changes nothing.  For a \<open>NaN\<close> key
  among different numbers the comparator is not consistent and the language leaves the
  order to the engine; the order that \<open>js_sort\<close> gives there is not the engine's, and
  every statement below about the order of a sorted list is made for the consistent case
  only.
\<close>

definition compare_desc :: "('a \<Rightarrow> jsnum) \<Rightarrow> 'a \<Rightarrow> 'a \<Rightarrow> rat" where
  "compare_desc mem a b = (case js_sub (mem b) (mem a) of NaN \<Rightarrow> 0 | Num v \<Rightarrow> v)"

fun insert_sorted :: "('a \<Rightarrow> 'a \<Rightarrow> rat) \<Rightarrow> 'a \<Rightarrow> 'a list \<Rightarrow> 'a list" where
  "insert_sorted cmp x [] = [x]"
| "insert_sorted cmp x (y # ys) =
     (if cmp x y \<le> 0 then x # y # ys else y # insert_sorted cmp x ys)"

definition js_sort :: "('a \<Rightarrow> 'a \<Rightarrow> rat) \<Rightarrow> 'a list \<Rightarrow> 'a list" where
  "js_sort cmp xs = foldr (insert_sorted cmp) xs []"

text \<open>
  A list is in descending order of memory when the memory of every entry is \<^verbatim>\<open>>=\<close> the
  memory of every later entry; the comparison is the language's, false when a side is
  \<open>NaN\<close>.
\<close>

definition descending :: "('a \<Rightarrow> jsnum) \<Rightarrow> 'a list \<Rightarrow> bool" where
  "descending mem xs = sorted_wrt (\<lambda>a b. js_ge (mem a) (mem b)) xs"

section \<open>\<^verbatim>\<open>getPythonProcesses\<close>\<close>

text \<open>The lines of a command's output: \<^verbatim>\<open>output.trim().split('\n').filter(l => l.length > 0)\<close>.\<close>

definition output_lines :: "jsstring \<Rightarrow> jsstring list" where
  "output_lines output = filter (\<lambda>l. length l > 0) (split [10] (trim output))"

definition line_parts :: "jsstring \<Rightarrow> jsstring list" where
  "line_parts line = split_ws (trim line)"

definition command_of :: "jsstring list \<Rightarrow> jsstring" where
  "command_of parts = join (str '' '') (drop 10 parts)"

definition memory_mb :: "jsstring list \<Rightarrow> jsnum" where
  "memory_mb parts = math_round (js_div (parseInt_arg (elem_at parts 5)) (Num 1024))"

text \<open>
  The pattern \<^verbatim>\<open>/([^\s\/]+\.py)/\<close>.  At one start position the class takes the longest run
  and gives characters back until \<^verbatim>\<open>.py\<close> follows; \<open>py_backtrack j s\<close> tries the run
  lengths \<open>j\<close>, \<open>j - 1\<close>, ..., \<open>1\<close>.  The match is the leftmost start that succeeds.
\<close>

definition py_class :: "nat \<Rightarrow> bool" where
  "py_class c = (\<not> is_ws c \<and> c \<noteq> 47)"

fun py_backtrack :: "nat \<Rightarrow> jsstring \<Rightarrow> jsstring option" where
  "py_backtrack 0 s = None"
| "py_backtrack (Suc j) s =
     (if prefix (str ''.py'') (drop (Suc j) s) then Some (take (Suc j + 3) s)
      else py_backtrack j s)"

definition py_match_at :: "jsstring \<Rightarrow> jsstring option" where
  "py_match_at s = py_backtrack (length (takeWhile py_class s)) s"

fun py_match :: "jsstring \<Rightarrow> jsstring option" where
  "py_match [] = None"
| "py_match (c # cs) =
     (case py_match_at (c # cs) of Some m \<Rightarrow> Some m | None \<Rightarrow> py_match cs)"

text \<open>
  The label of one process; \<open>None\<close> is the \<^verbatim>\<open>continue\<close> of the last branch, which skips
  the process.
\<close>

definition script_label :: "jsstring \<Rightarrow> jsnum \<Rightarrow> jsstring option" where
  "script_label command mem =
     (case py_match command of
        Some m \<Rightarrow> Some m
      | None \<Rightarrow>
          if includes_str command (str ''voice-mode'') then Some (str ''voice-mode (MCP)'')
          else if includes_str command (str ''ingest'') then Some (str ''Supabase Ingestor'')
          else if includes_str command (str ''uv run'') then Some (str ''uv script'')
          else if js_gt mem (Num 100) then Some (substring0 40 command @ str ''...'')
          else None)"

fun python_loop :: "jsstring list \<Rightarrow> PythonProcess list" where
  "python_loop [] = []"
| "python_loop (line # lines) =
     (let parts = line_parts line;
          p = parseInt_arg (elem_at parts 1);
          mem = memory_mb parts;
          command = command_of parts
      in case script_label command mem of
           None \<Rightarrow> python_loop lines
         | Some label \<Rightarrow>
             if js_gt mem (Num 10)
             then \<lparr>script = label, memory = mem, pid = p\<rparr> # python_loop lines
             else python_loop lines)"

text \<open>
  The argument is the text of \<^verbatim>\<open>ps aux | grep -i "[p]ython"\<close>; \<open>None\<close> stands for the
  command raising, which the \<^verbatim>\<open>catch\<close> turns into the empty list.
\<close>

definition getPythonProcesses :: "jsstring option \<Rightarrow> PythonProcess list" where
  "getPythonProcesses src =
     (case src of
        None \<Rightarrow> []
      | Some output \<Rightarrow>
          js_sort (compare_desc PythonProcess.memory) (python_loop (output_lines output)))"

section \<open>\<^verbatim>\<open>getClaudeSessions\<close>\<close>

text \<open>
  \<^verbatim>\<open>workingDir.split('/').filter(p => p && p !== 'Users' && p !== 'maxghenis').slice(-1)[0] || 'Home'\<close>
\<close>

definition project_name :: "jsstring \<Rightarrow> jsstring" where
  "project_name wd =
     (let segs = filter (\<lambda>p. p \<noteq> [] \<and> p \<noteq> str ''Users'' \<and> p \<noteq> str ''maxghenis'')
                   (split (str ''/'') wd)
      in if segs = [] \<or> last segs = [] then str ''Home'' else last segs)"

text \<open>
  \<open>lsof\<close> is the working-directory lookup \<^verbatim>\<open>lsof -p ${pid} ... | head -1\<close> as a function
  of the process id; \<open>None\<close> is the lookup raising, which the inner \<^verbatim>\<open>catch {}\<close> ignores.
\<close>

fun claude_loop :: "(jsnum \<Rightarrow> jsstring option) \<Rightarrow> jsstring list \<Rightarrow> ClaudeSession list" where
  "claude_loop lsof [] = []"
| "claude_loop lsof (line # lines) =
     (let parts = line_parts line;
          p = parseInt_arg (elem_at parts 1);
          mem = memory_mb parts;
          command = command_of parts
      in if js_lt mem (Num 50) then claude_loop lsof lines
         else
           let wd = (case lsof p of None \<Rightarrow> [] | Some out \<Rightarrow> trim out)
           in \<lparr>workingDir = wd, projectName = project_name wd, memory = mem, pid = p,
               isSubagent = (js_lt mem (Num 500) \<and> includes_str command (str ''claude''))\<rparr>
              # claude_loop lsof lines)"

definition getClaudeSessions ::
    "jsstring option \<Rightarrow> (jsnum \<Rightarrow> jsstring option) \<Rightarrow> ClaudeSession list" where
  "getClaudeSessions src lsof =
     (case src of
        None \<Rightarrow> []
      | Some output \<Rightarrow>
          js_sort (compare_desc ClaudeSession.memory) (claude_loop lsof (output_lines output)))"

section \<open>\<^verbatim>\<open>getVSCodeWorkspaces\<close>\<close>

text \<open>
  A \<^verbatim>\<open>Map\<close> keeps its keys in insertion order: an association list in which \<open>map_set\<close>
  overwrites the value of a present key in place and appends an absent one.
\<close>

fun map_set :: "'k \<Rightarrow> 'v \<Rightarrow> ('k \<times> 'v) list \<Rightarrow> ('k \<times> 'v) list" where
  "map_set k v [] = [(k, v)]"
| "map_set k v ((k', v') # m) = (if k' = k then (k, v) # m else (k', v') # map_set k v m)"

definition map_get :: "('k \<times> 'v) list \<Rightarrow> 'k \<Rightarrow> 'v option" where
  "map_get m k = map_of m k"

text \<open>The first loop: \<open>(totalMemory, totalProcesses)\<close> over the lines.\<close>

fun vscode_totals :: "jsstring list \<Rightarrow> jsnum \<times> jsnum \<Rightarrow> jsnum \<times> jsnum" where
  "vscode_totals [] acc = acc"
| "vscode_totals (line # lines) (totalMemory, totalProcesses) =
     vscode_totals lines
       (js_add totalMemory (memory_mb (line_parts line)), js_add totalProcesses (Num 1))"

text \<open>
  The window-title pattern: an em dash (code unit 8212), a space, then \<^verbatim>\<open>([^\[]+)\<close>, the
  longest non-empty run without an opening bracket, which is the capture; the match is at
  the leftmost start that succeeds.
\<close>

definition window_match_at :: "jsstring \<Rightarrow> jsstring option" where
  "window_match_at s =
     (let cap = takeWhile (\<lambda>c. c \<noteq> 91) (drop 2 s)
      in if prefix [8212, 32] s \<and> cap \<noteq> [] then Some cap else None)"

fun window_match :: "jsstring \<Rightarrow> jsstring option" where
  "window_match [] = None"
| "window_match (c # cs) =
     (case window_match_at (c # cs) of Some m \<Rightarrow> Some m | None \<Rightarrow> window_match cs)"

fun window_loop ::
    "jsnum \<times> jsnum \<Rightarrow> jsstring list \<Rightarrow> (jsstring \<times> jsnum \<times> jsnum) list
      \<Rightarrow> (jsstring \<times> jsnum \<times> jsnum) list" where
  "window_loop share [] workspaces = workspaces"
| "window_loop share (window # windows) workspaces =
     (let p = (case window_match window of Some cap \<Rightarrow> trim cap | None \<Rightarrow> window)
      in window_loop share windows (map_set p share workspaces))"

definition workspace_entries ::
    "jsnum \<times> jsnum \<Rightarrow> jsstring option \<Rightarrow> (jsstring \<times> jsnum \<times> jsnum) list" where
  "workspace_entries totals windowsSrc =
     (case windowsSrc of
        None \<Rightarrow> map_set (str ''VS Code (total)'') totals []
      | Some windowsOutput \<Rightarrow>
          let windows = filter (\<lambda>w. length w > 0) (split (str '', '') (trim windowsOutput));
              n = Num (of_nat (max (length windows) 1));
              memPerWindow = math_round (js_div (fst totals) n);
              procsPerWindow = math_round (js_div (snd totals) n)
          in window_loop (memPerWindow, procsPerWindow) windows [])"

definition vscode_unsorted :: "jsstring \<Rightarrow> jsstring option \<Rightarrow> VSCodeWorkspace list" where
  "vscode_unsorted output windowsSrc =
     map (\<lambda>(p, m, n). \<lparr>path = p, memory = m, processes = n\<rparr>)
       (workspace_entries (vscode_totals (output_lines output) (Num 0, Num 0)) windowsSrc)"

text \<open>
  The first argument is the text of the \<^verbatim>\<open>ps aux | grep -E ...\<close> pipeline, the second the
  window names returned by \<^verbatim>\<open>osascript\<close>; \<open>None\<close> is the command raising.
\<close>

definition getVSCodeWorkspaces :: "jsstring option \<Rightarrow> jsstring option \<Rightarrow> VSCodeWorkspace list" where
  "getVSCodeWorkspaces src windowsSrc =
     (case src of
        None \<Rightarrow> []
      | Some output \<Rightarrow>
          js_sort (compare_desc VSCodeWorkspace.memory) (vscode_unsorted output windowsSrc))"

section \<open>\<^verbatim>\<open>getChromeTabs\<close>\<close>

definition renderer_memory :: "jsstring \<Rightarrow> jsnum" where
  "renderer_memory line =
     (let parts = line_parts line;
          rss = (case elem_at parts 5 of None \<Rightarrow> str ''0''
                 | Some f \<Rightarrow> if f = [] then str ''0'' else f)
      in math_round (js_div (parseInt rss) (Num 1024)))"

text \<open>
  \<^verbatim>\<open>Math.round(50 + Math.random() * 100)\<close> for the value \<open>r\<close> that \<^verbatim>\<open>Math.random()\<close>
  returned.
\<close>

definition random_estimate :: "rat \<Rightarrow> jsnum" where
  "random_estimate r = math_round (js_add (Num 50) (js_mul (Num r) (Num 100)))"

text \<open>
  \<^verbatim>\<open>rendererMemory[i] || Math.round(50 + Math.random() * 100)\<close>.  \<open>rnd\<close> is the sequence
  of values that \<^verbatim>\<open>Math.random()\<close> returns and \<open>k\<close> the number of calls made so far; the
  call is only made when \<^verbatim>\<open>rendererMemory[i]\<close> is falsy (absent, \<open>0\<close> or \<open>NaN\<close>).  The
  result is the estimate and the new number of calls.
\<close>

definition estimated_memory :: "jsnum list \<Rightarrow> (nat \<Rightarrow> rat) \<Rightarrow> nat \<Rightarrow> nat \<Rightarrow> jsnum \<times> nat" where
  "estimated_memory rendererMemory rnd i k =
     (case elem_at rendererMemory i of
        None \<Rightarrow> (random_estimate (rnd k), Suc k)
      | Some m \<Rightarrow> if truthy_num m then (m, k) else (random_estimate (rnd k), Suc k))"

text \<open>
  \<^verbatim>\<open>title?.substring(0, 60) || 'Unknown'\<close> and \<^verbatim>\<open>url || ''\<close> for the two first pieces of
  the line, \<open>None\<close> being \<^verbatim>\<open>undefined\<close>.
\<close>

definition tab_title :: "jsstring option \<Rightarrow> jsstring" where
  "tab_title t =
     (case t of
        None \<Rightarrow> str ''Unknown''
      | Some s \<Rightarrow> if substring0 60 s = [] then str ''Unknown'' else substring0 60 s)"

definition tab_url :: "jsstring option \<Rightarrow> jsstring" where
  "tab_url u = (case u of None \<Rightarrow> [] | Some s \<Rightarrow> if s = [] then [] else s)"

text \<open>The loop over \<open>tabLines\<close> from index \<open>i\<close>.\<close>

fun tab_loop ::
    "jsnum list \<Rightarrow> (nat \<Rightarrow> rat) \<Rightarrow> nat \<Rightarrow> nat \<Rightarrow> jsstring list \<Rightarrow> ChromeTab list" where
  "tab_loop rendererMemory rnd i k [] = []"
| "tab_loop rendererMemory rnd i k (line # tabLines) =
     (let pieces = split (str ''|||'') line;
          est = estimated_memory rendererMemory rnd i k
      in \<lparr>title = tab_title (elem_at pieces 0), url = tab_url (elem_at pieces 1),
           memory = fst est\<rparr>
         # tab_loop rendererMemory rnd (Suc i) (snd est) tabLines)"

definition tab_lines :: "jsstring \<Rightarrow> jsstring list" where
  "tab_lines tabsOutput =
     filter (\<lambda>l. includes_str l (str ''|||'')) (split [10] (trim tabsOutput))"

definition chrome_unsorted :: "jsstring \<Rightarrow> jsstring \<Rightarrow> (nat \<Rightarrow> rat) \<Rightarrow> ChromeTab list" where
  "chrome_unsorted psOutput tabsOutput rnd =
     tab_loop (map renderer_memory (output_lines psOutput)) rnd 0 0 (tab_lines tabsOutput)"

text \<open>
  The first argument is the text of the renderer \<^verbatim>\<open>ps\<close> pipeline (sorted by the shell),
  the second the tab list returned by \<^verbatim>\<open>osascript\<close>; \<open>None\<close> is the command raising.
\<close>

definition getChromeTabs ::
    "jsstring option \<Rightarrow> jsstring option \<Rightarrow> (nat \<Rightarrow> rat) \<Rightarrow> ChromeTab list" where
  "getChromeTabs src tabsSrc rnd =
     (case src of
        None \<Rightarrow> []
      | Some psOutput \<Rightarrow>
          (case tabsSrc of
             None \<Rightarrow> []
           | Some tabsOutput \<Rightarrow>
               js_sort (compare_desc ChromeTab.memory) (chrome_unsorted psOutput tabsOutput rnd)))"

section \<open>\<^verbatim>\<open>getSystemMemory\<close>\<close>

record SystemMemory =
  total :: jsnum
  used :: jsnum
  free :: jsnum
  apps :: "AppMemory list"
  chromeTabs :: "ChromeTab list"
  pythonProcesses :: "PythonProcess list"
  claudeSessions :: "ClaudeSession list"
  vscodeWorkspaces :: "VSCodeWorkspace list"
  timestamp :: nat

subsection \<open>Virtual-memory statistics\<close>

text \<open>
  \<^verbatim>\<open>vmStat.match(new RegExp(`${key}:\\s+(\\d+)`))\<close> for a key without special characters:
  the key, a colon, white space, and the longest run of digits, which is the capture.
\<close>

definition vm_match_at :: "jsstring \<Rightarrow> jsstring \<Rightarrow> jsstring option" where
  "vm_match_at key s =
     (let r = drop (length key + 1) s;
          ds = takeWhile is_digit (dropWhile is_ws r)
      in if prefix (key @ str '':'') s \<and> r \<noteq> [] \<and> is_ws (hd r) \<and> ds \<noteq> [] then Some ds
         else None)"

fun vm_match :: "jsstring \<Rightarrow> jsstring \<Rightarrow> jsstring option" where
  "vm_match key [] = None"
| "vm_match key (c # cs) =
     (case vm_match_at key (c # cs) of Some m \<Rightarrow> Some m | None \<Rightarrow> vm_match key cs)"

definition pageSize :: rat where
  "pageSize = 16384"

definition parseVmStat :: "jsstring \<Rightarrow> jsstring \<Rightarrow> jsnum" where
  "parseVmStat vmStat key =
     (case vm_match key vmStat of
        Some m \<Rightarrow>
          js_div (js_div (js_div (js_mul (parseInt m) (Num pageSize)) (Num 1024)) (Num 1024))
            (Num 1024)
      | None \<Rightarrow> Num 0)"

subsection \<open>The application classifier\<close>

text \<open>
  A rule of \<open>appPatterns\<close>; \<open>pattern\<close> is \<^verbatim>\<open>app.pattern.test\<close>, a predicate on the command
  line (the patterns carry no \<^verbatim>\<open>g\<close> flag, so the test has no state).
\<close>

record AppPattern =
  rule_name :: jsstring
  pattern :: "jsstring \<Rightarrow> bool"
  rule_color :: jsstring

text \<open>
  Matching under the flag \<^verbatim>\<open>i\<close>: two code units match when their canonical forms agree.
  All pattern characters are ASCII, and a code unit above 127 never canonicalises to an
  ASCII one, so only the ASCII letters fold.
\<close>

definition canon :: "nat \<Rightarrow> nat" where
  "canon c = (if 97 \<le> c \<and> c \<le> 122 then c - 32 else c)"

definition includes_ci :: "jsstring \<Rightarrow> string \<Rightarrow> bool" where
  "includes_ci s pat = includes_str (map canon s) (map canon (str pat))"

text \<open>
  \<^verbatim>\<open>/node(?!.*[Cc]ode)/i\<close>: an occurrence of \<^verbatim>\<open>node\<close> after which the rest of the line (the
  dot stops at a line terminator) has no \<^verbatim>\<open>code\<close>.
\<close>

definition line_terminator :: "nat \<Rightarrow> bool" where
  "line_terminator c = (c = 10 \<or> c = 13 \<or> c = 8232 \<or> c = 8233)"

fun node_match :: "jsstring \<Rightarrow> bool" where
  "node_match [] = False"
| "node_match (c # cs) =
     ((prefix (map canon (str ''node'')) (map canon (c # cs))
        \<and> \<not> includes_ci (takeWhile (\<lambda>x. \<not> line_terminator x) (drop 4 (c # cs))) ''code'')
      \<or> node_match cs)"

definition appPatterns :: "AppPattern list" where
  "appPatterns =
     [\<lparr>rule_name = str ''Chrome'',
       pattern = (\<lambda>s. includes_ci s ''Google Chrome'' \<or> includes_ci s ''chrome''),
       rule_color = str ''#4285f4''\<rparr>,
      \<lparr>rule_name = str ''Claude Code'', pattern = (\<lambda>s. includes_ci s ''claude''),
       rule_color = str ''#cc785c''\<rparr>,
      \<lparr>rule_name = str ''VS Code'',
       pattern = (\<lambda>s. includes_ci s ''Visual Studio Code'' \<or> includes_ci s ''Code Helper''),
       rule_color = str ''#007acc''\<rparr>,
      \<lparr>rule_name = str ''Slack'', pattern = (\<lambda>s. includes_ci s ''Slack''),
       rule_color = str ''#4a154b''\<rparr>,
      \<lparr>rule_name = str ''Python'', pattern = (\<lambda>s. includes_ci s ''python''),
       rule_color = str ''#3776ab''\<rparr>,
      \<lparr>rule_name = str ''Node.js'', pattern = node_match, rule_color = str ''#339933''\<rparr>,
      \<lparr>rule_name = str ''Next.js'', pattern = (\<lambda>s. includes_ci s ''next-server''),
       rule_color = str ''#000000''\<rparr>,
      \<lparr>rule_name = str ''WhatsApp'', pattern = (\<lambda>s. includes_ci s ''WhatsApp''),
       rule_color = str ''#25d366''\<rparr>,
      \<lparr>rule_name = str ''Obsidian'', pattern = (\<lambda>s. includes_ci s ''Obsidian''),
       rule_color = str ''#7c3aed''\<rparr>,
      \<lparr>rule_name = str ''Docker'',
       pattern = (\<lambda>s. includes_ci s ''docker'' \<or> includes_ci s ''containerd''),
       rule_color = str ''#2496ed''\<rparr>]"

text \<open>
  The map \<open>appMemory\<close>: the group's name to its \<open>(memory, processes, color)\<close>.  The inner
  loop over the rules stops at the first rule whose pattern matches (\<^verbatim>\<open>break\<close>).
\<close>

type_synonym app_map = "(jsstring \<times> jsnum \<times> jsnum \<times> jsstring) list"

fun classify :: "AppPattern list \<Rightarrow> jsstring \<Rightarrow> jsnum \<Rightarrow> app_map \<Rightarrow> app_map" where
  "classify [] command rss appMemory = appMemory"
| "classify (app # rules) command rss appMemory =
     (if pattern app command
      then (let current = (case map_get appMemory (rule_name app) of
                             Some cur \<Rightarrow> cur
                           | None \<Rightarrow> (Num 0, Num 0, rule_color app))
            in map_set (rule_name app)
                 (js_add (fst current) rss, js_add (fst (snd current)) (Num 1),
                  snd (snd current))
                 appMemory)
      else classify rules command rss appMemory)"

fun apps_loop :: "AppPattern list \<Rightarrow> jsstring list \<Rightarrow> app_map \<Rightarrow> app_map" where
  "apps_loop rules [] appMemory = appMemory"
| "apps_loop rules (line # lines) appMemory =
     (let parts = line_parts line
      in if length parts < 11 then apps_loop rules lines appMemory
         else apps_loop rules lines
                (classify rules (command_of parts)
                   (js_div (parseInt_arg (elem_at parts 5)) (Num 1024)) appMemory))"

text \<open>\<^verbatim>\<open>psOutput.trim().split('\n').slice(1)\<close>: the table without its header line.\<close>

definition table_lines :: "jsstring \<Rightarrow> jsstring list" where
  "table_lines psOutput = drop 1 (split [10] (trim psOutput))"

definition apps_unsorted :: "AppPattern list \<Rightarrow> jsstring \<Rightarrow> AppMemory list" where
  "apps_unsorted rules psOutput =
     map (\<lambda>(n, m, k, c).
            \<lparr>AppMemory.name = n, memory = math_round m, processes = k, color = c\<rparr>)
       (apps_loop rules (table_lines psOutput) [])"

definition app_groups :: "AppPattern list \<Rightarrow> jsstring \<Rightarrow> AppMemory list" where
  "app_groups rules psOutput =
     js_sort (compare_desc AppMemory.memory) (apps_unsorted rules psOutput)"

text \<open>
  The classification as the specification words it: the owner of a line is the first rule,
  in list order, whose pattern matches the line's command; a line of fewer than 11 fields
  is no process record and has no owner.  \<open>owned_by\<close> are the lines a group owns and
  \<open>rss_mb\<close> is what one line adds to its group's memory.
\<close>

definition first_match :: "AppPattern list \<Rightarrow> jsstring \<Rightarrow> AppPattern option" where
  "first_match rules line =
     (let parts = line_parts line
      in if length parts < 11 then None
         else find (\<lambda>app. pattern app (command_of parts)) rules)"

definition owned_by :: "AppPattern list \<Rightarrow> jsstring \<Rightarrow> jsstring list \<Rightarrow> jsstring list" where
  "owned_by rules g lines =
     filter (\<lambda>line. map_option rule_name (first_match rules line) = Some g) lines"

definition rss_mb :: "jsstring \<Rightarrow> jsnum" where
  "rss_mb line = js_div (parseInt_arg (elem_at (line_parts line) 5)) (Num 1024)"

text \<open>The running totals of a group after more lines.\<close>

definition add_lines :: "jsnum \<times> jsnum \<Rightarrow> jsstring list \<Rightarrow> jsnum \<times> jsnum" where
  "add_lines acc ls =
     (foldl js_add (fst acc) (map rss_mb ls), foldl (\<lambda>n l. js_add n (Num 1)) (snd acc) ls)"

definition totals :: "app_map \<Rightarrow> jsstring \<Rightarrow> (jsnum \<times> jsnum) option" where
  "totals m g = map_option (\<lambda>v. (fst v, fst (snd v))) (map_of m g)"

subsection \<open>The snapshot\<close>

text \<open>
  Everything \<open>getSystemMemory\<close> reads from outside: the text of each shell command
  (\<open>None\<close> when the command raises), the working-directory lookup, the values of
  \<^verbatim>\<open>Math.random()\<close> and the clock.
\<close>

record Sources =
  sysctl_memsize :: "jsstring option"
  vm_stat :: "jsstring option"
  ps_aux :: "jsstring option"
  ps_chrome :: "jsstring option"
  chrome_tab_list :: "jsstring option"
  ps_python :: "jsstring option"
  ps_claude :: "jsstring option"
  lsof_cwd :: "jsnum \<Rightarrow> jsstring option"
  ps_vscode :: "jsstring option"
  vscode_windows :: "jsstring option"
  math_random :: "nat \<Rightarrow> rat"
  clock :: nat

datatype error = ShellError

text \<open>
  The three commands of the body are awaited outside any \<^verbatim>\<open>try\<close>: when one raises,
  \<open>getSystemMemory\<close> rejects (\<open>Inl\<close>).
\<close>

definition getSystemMemory :: "Sources \<Rightarrow> error + SystemMemory" where
  "getSystemMemory src =
     (case sysctl_memsize src of
        None \<Rightarrow> Inl ShellError
      | Some memsize \<Rightarrow>
     (case vm_stat src of
        None \<Rightarrow> Inl ShellError
      | Some vmStat \<Rightarrow>
     (case ps_aux src of
        None \<Rightarrow> Inl ShellError
      | Some psOutput \<Rightarrow>
          let totalRam = js_div (js_div (js_div (parseInt memsize) (Num 1024)) (Num 1024)) (Num 1024);
              wired = parseVmStat vmStat (str ''Pages wired down'');
              active = parseVmStat vmStat (str ''Pages active'');
              compressed = parseVmStat vmStat (str ''Pages occupied by compressor'');
              usedRam = js_add (js_add wired active) compressed
          in Inr \<lparr>total = math_round totalRam,
                  used = js_div (math_round (js_mul usedRam (Num 10))) (Num 10),
                  free = js_div (math_round (js_mul (js_sub totalRam usedRam) (Num 10))) (Num 10),
                  apps = app_groups appPatterns psOutput,
                  chromeTabs = getChromeTabs (ps_chrome src) (chrome_tab_list src) (math_random src),
                  pythonProcesses = getPythonProcesses (ps_python src),
                  claudeSessions = getClaudeSessions (ps_claude src) (lsof_cwd src),
                  vscodeWorkspaces = getVSCodeWorkspaces (ps_vscode src) (vscode_windows src),
                  timestamp = clock src\<rparr>)))"

section \<open>A sample of inputs\<close>

text \<open>
  One assignment of the external inputs, used to run the functions: a machine with 32 GB,
  a process table of one Python process, one Chrome renderer and two tabs, one Claude
  process and one VS Code helper; the Python \<^verbatim>\<open>grep\<close>, every working-directory lookup
  and the window enumeration fail.
\<close>

definition sample_table :: jsstring where
  "sample_table =
     str ''USER PID %CPU %MEM VSZ RSS TT STAT STARTED TIME COMMAND'' @ [10]
     @ str ''max 7 0.0 0.1 410000 204800 ?? S 9:00AM 0:00.10 /usr/bin/python3 app.py'' @ [10]"

definition sample_sources :: Sources where
  "sample_sources =
     \<lparr>sysctl_memsize = Some (str ''34359738368'' @ [10]),
      vm_stat = Some (str ''Pages active:      524288.'' @ [10]
                      @ str ''Pages wired down:  262144.'' @ [10]
                      @ str ''Pages occupied by compressor:  131072.'' @ [10]),
      ps_aux = Some sample_table,
      ps_chrome = Some (str ''max 8 0.0 0.1 410000 204800 ?? S 9:00AM 0:00.10 Google Chrome Helper (Renderer)'' @ [10]),
      chrome_tab_list = Some (str ''Inbox|||https://mail'' @ [10] @ str ''News|||https://news'' @ [10]),
      ps_python = None,
      ps_claude = Some (str ''max 9 0.0 0.1 410000 999999 ?? S 9:00AM 0:00.10 claude'' @ [10]),
      lsof_cwd = (\<lambda>p. None),
      ps_vscode = Some (str ''max 10 0.0 0.1 410000 999999 ?? S 9:00AM 0:00.10 Code Helper'' @ [10]),
      vscode_windows = None,
      math_random = (\<lambda>k. 0),
      clock = 0\<rparr>"

text \<open>
  Two Claude processes, and a working-directory lookup that succeeds for pid 8 and raises
  for every other process.
\<close>

definition sample_claude_table :: jsstring where
  "sample_claude_table =
     str ''max 8 0.0 0.1 410000 204800 ?? S 9:00AM 0:00.10 claude'' @ [10]
     @ str ''max 9 0.0 0.1 410000 999999 ?? S 9:00AM 0:00.10 claude --resume'' @ [10]"

definition sample_lookup :: "jsnum \<Rightarrow> jsstring option" where
  "sample_lookup p =
     (if p = Num 8 then Some (str ''/Users/maxghenis/ram-dashboard'' @ [10]) else None)"

section \<open>Evaluation on concrete inputs\<close>

lemmas eval_strings =
  str_def trim_def is_ws_def is_digit_def split_def split_ws.simps line_parts_def
  output_lines_def command_of_def elem_at_def Let_def

lemmas eval_numbers =
  parseInt_arg_def parseInt_def radix_digit_def digit_value_def digits_value_def js_gt_def

lemma round_div_int:
  assumes "0 < b"
  shows "math_round (js_div (Num (of_int a)) (Num (of_int b)))
         = Num (of_int ((2 * a + b) div (2 * b)))"
proof -
  have "(of_int a :: rat) / of_int b + 1 / 2 = of_int (2 * a + b) / of_int (2 * b)"
    using assms by (simp add: field_simps)
  then show ?thesis
    by (simp add: floor_divide_of_int_eq del: of_int_add of_int_mult)
qed

lemma math_round_0: "math_round (Num 0) = Num 0"
  by code_simp

lemma random_estimate_0: "random_estimate 0 = Num 50"
  by code_simp
lemma random_estimate_half: "random_estimate (1 / 2) = Num 100"
  by code_simp

lemmas eval_tabs =
  estimated_memory_def tab_title_def tab_url_def substring0_def tab_lines_def chrome_unsorted_def
  renderer_memory_def

lemmas eval_snapshot =
  getSystemMemory_def parseVmStat_def vm_match_at_def pageSize_def app_groups_def apps_unsorted_def
  table_lines_def getChromeTabs_def getPythonProcesses_def getClaudeSessions_def
  getVSCodeWorkspaces_def vscode_unsorted_def workspace_entries_def js_sort_def compare_desc_def
  memory_mb_def project_name_def map_get_def

section \<open>Sorting: basic facts\<close>

lemma js_sort_Cons: "js_sort cmp (x # xs) = insert_sorted cmp x (js_sort cmp xs)"
  by (simp add: js_sort_def)

lemma js_sort_Nil: "js_sort cmp [] = []"
  by (simp add: js_sort_def)

lemma set_insert_sorted: "set (insert_sorted cmp x xs) = insert x (set xs)"
  by (induction xs) auto

lemma set_js_sort: "set (js_sort cmp xs) = set xs"
  by (induction xs) (simp_all add: js_sort_Nil js_sort_Cons set_insert_sorted)

lemma length_insert_sorted: "length (insert_sorted cmp x xs) = Suc (length xs)"
  by (induction xs) auto

lemma length_js_sort: "length (js_sort cmp xs) = length xs"
  by (induction xs) (simp_all add: js_sort_Nil js_sort_Cons length_insert_sorted)

lemma map_insert_sorted:
  "map mem (insert_sorted (compare_desc mem) x xs)
   = insert_sorted (compare_desc (\<lambda>m. m)) (mem x) (map mem xs)"
  by (induction xs) (simp_all add: compare_desc_def)

lemma map_js_sort:
  "map mem (js_sort (compare_desc mem) xs) = js_sort (compare_desc (\<lambda>m. m)) (map mem xs)"
  by (induction xs) (simp_all add: js_sort_Nil js_sort_Cons map_insert_sorted)

lemma map_insert_sorted_key:
  assumes "\<And>y. mem y = key (f y)"
  shows "map f (insert_sorted (compare_desc mem) x xs)
         = insert_sorted (compare_desc key) (f x) (map f xs)"
  by (induction xs) (simp_all add: compare_desc_def assms)

lemma map_js_sort_key:
  assumes "\<And>y. mem y = key (f y)"
  shows "map f (js_sort (compare_desc mem) xs) = js_sort (compare_desc key) (map f xs)"
proof (induction xs)
  case Nil
  show ?case by (simp add: js_sort_Nil)
next
  case (Cons x xs)
  have "map f (insert_sorted (compare_desc mem) x (js_sort (compare_desc mem) xs))
        = insert_sorted (compare_desc key) (f x) (map f (js_sort (compare_desc mem) xs))"
    by (rule map_insert_sorted_key) (rule assms)
  then show ?case by (simp add: js_sort_Cons Cons.IH)
qed

lemma compare_desc_le:
  "mem x = Num a \<Longrightarrow> mem y = Num b \<Longrightarrow> (compare_desc mem x y \<le> 0) = (b \<le> a)"
  by (simp add: compare_desc_def)

lemma descending_insert_sorted:
  assumes "\<forall>y \<in> set (x # xs). mem y \<noteq> NaN" and "descending mem xs"
  shows "descending mem (insert_sorted (compare_desc mem) x xs)"
  using assms
proof (induction xs)
  case Nil
  then show ?case by (simp add: descending_def)
next
  case (Cons y ys)
  obtain a where a: "mem x = Num a" using Cons.prems(1) by (cases "mem x") auto
  obtain b where b: "mem y = Num b" using Cons.prems(1) by (cases "mem y") auto
  have tail: "\<forall>z \<in> set ys. \<exists>c. mem z = Num c \<and> c \<le> b"
  proof
    fix z assume z: "z \<in> set ys"
    then obtain c where c: "mem z = Num c" using Cons.prems(1) by (cases "mem z") auto
    then show "\<exists>c. mem z = Num c \<and> c \<le> b"
      using Cons.prems(2) z b by (auto simp: descending_def)
  qed
  show ?case
  proof (cases "compare_desc mem x y \<le> 0")
    case True
    then have "b \<le> a" using a b by (simp add: compare_desc_le)
    then show ?thesis
      using True a b tail Cons.prems(2) by (fastforce simp: descending_def)
  next
    case False
    then have ab: "a < b" using a b by (simp add: compare_desc_le)
    have "descending mem (insert_sorted (compare_desc mem) x ys)"
      using Cons by (simp add: descending_def)
    then show ?thesis
      using False a b ab tail by (auto simp: descending_def set_insert_sorted)
  qed
qed

lemma descending_js_sort:
  "\<forall>y \<in> set xs. mem y \<noteq> NaN \<Longrightarrow> descending mem (js_sort (compare_desc mem) xs)"
proof (induction xs)
  case Nil
  then show ?case by (simp add: js_sort_Nil descending_def)
next
  case (Cons x xs)
  then show ?case
    using descending_insert_sorted [of x "js_sort (compare_desc mem) xs" mem]
    by (simp add: js_sort_Cons set_js_sort)
qed

lemma compare_desc_same: "mem x = mem y \<Longrightarrow> compare_desc mem x y \<le> 0"
  by (cases "mem y") (simp_all add: compare_desc_def)

lemma filter_insert_sorted:
  "filter (\<lambda>y. mem y = k) (insert_sorted (compare_desc mem) x xs)
   = (if mem x = k then x # filter (\<lambda>y. mem y = k) xs else filter (\<lambda>y. mem y = k) xs)"
  by (induction xs) (auto simp: compare_desc_same)

lemma filter_js_sort:
  "filter (\<lambda>y. mem y = k) (js_sort (compare_desc mem) xs) = filter (\<lambda>y. mem y = k) xs"
  by (induction xs) (simp_all add: js_sort_Nil js_sort_Cons filter_insert_sorted)

lemma js_sort_constant:
  "\<forall>y \<in> set xs. mem y = m \<Longrightarrow> js_sort (compare_desc mem) xs = xs"
proof (induction xs)
  case Nil
  then show ?case by (simp add: js_sort_Nil)
next
  case (Cons x xs)
  then show ?case
    by (cases xs) (simp_all add: js_sort_Cons compare_desc_same)
qed

lemma descending_constant: "\<forall>y \<in> set xs. mem y = Num m \<Longrightarrow> descending mem xs"
  by (auto simp: descending_def sorted_wrt_iff_nth_less)

subsection \<open>The tab loop\<close>

lemma length_tab_loop: "length (tab_loop rm rnd i k ls) = length ls"
  by (induction ls arbitrary: i k) (simp_all add: Let_def)




lemma split_missing_title: "split (str ''|||'') (str ''|||'' @ u) = [] # split (str ''|||'') u"
  by (cases u) (simp_all add: split_def str_def)


lemma random_estimate_range:
  assumes "0 \<le> r" "r < 1"
  shows "\<exists>n::int. random_estimate r = Num (of_int n) \<and> 50 \<le> n \<and> n \<le> 150"
proof -
  let ?n = "\<lfloor>50 + r * 100 + 1 / 2\<rfloor>"
  have "50 \<le> ?n" using assms by (simp add: le_floor_iff)
  moreover have "?n \<le> 150" using assms by (simp add: floor_le_iff)
  ultimately show ?thesis by (auto simp: random_estimate_def)
qed

lemma tab_loop_known:
  "j < length ls \<Longrightarrow> i + j < length rm \<Longrightarrow> truthy_num (rm ! (i + j)) \<Longrightarrow>
   ChromeTab.memory (tab_loop rm rnd i k ls ! j) = rm ! (i + j)"
proof (induction ls arbitrary: i j k)
  case Nil
  then show ?case by simp
next
  case (Cons l ls)
  show ?case
  proof (cases j)
    case 0
    then show ?thesis using Cons.prems by (simp add: Let_def estimated_memory_def elem_at_def)
  next
    case (Suc j')
    then show ?thesis using Cons.prems Cons.IH [of j' "Suc i"] by (simp add: Let_def)
  qed
qed

lemma tab_loop_estimate:
  "j < length ls \<Longrightarrow> \<not> (i + j < length rm \<and> truthy_num (rm ! (i + j))) \<Longrightarrow>
   \<exists>k'. ChromeTab.memory (tab_loop rm rnd i k ls ! j) = random_estimate (rnd k')"
proof (induction ls arbitrary: i j k)
  case Nil
  then show ?case by simp
next
  case (Cons l ls)
  show ?case
  proof (cases j)
    case 0
    then show ?thesis using Cons.prems by (auto simp add: Let_def estimated_memory_def elem_at_def)
  next
    case (Suc j')
    then show ?thesis using Cons.prems Cons.IH [of j' "Suc i"] by (simp add: Let_def)
  qed
qed

lemma tab_loop_no_random:
  "(\<forall>j<length ls. i + j < length rm \<and> truthy_num (rm ! (i + j))) \<Longrightarrow>
   tab_loop rm r1 i k1 ls = tab_loop rm r2 i k2 ls"
proof (induction ls arbitrary: i k1 k2)
  case Nil
  then show ?case by simp
next
  case (Cons l ls)
  from Cons.prems have h: "i < length rm \<and> truthy_num (rm ! i)"
    by (metis add.right_neutral length_greater_0_conv list.distinct(1))
  have "\<forall>j<length ls. Suc i + j < length rm \<and> truthy_num (rm ! (Suc i + j))"
  proof (intro allI impI)
    fix j assume "j < length ls"
    then have "Suc j < length (l # ls)" by simp
    then show "Suc i + j < length rm \<and> truthy_num (rm ! (Suc i + j))"
      using Cons.prems by (metis add_Suc_shift)
  qed
  then have "tab_loop rm r1 (Suc i) k1 ls = tab_loop rm r2 (Suc i) k2 ls"
    by (rule Cons.IH)
  then show ?case using h by (simp add: Let_def estimated_memory_def elem_at_def)
qed

subsection \<open>The memory values of the lists\<close>

lemma python_loop_numeric: "p \<in> set (python_loop ls) \<Longrightarrow> PythonProcess.memory p \<noteq> NaN"
  by (induction ls) (auto simp: Let_def js_gt_def split: option.splits if_splits)

lemma estimated_memory_numeric: "fst (estimated_memory rm rnd i k) \<noteq> NaN"
  by (auto simp: estimated_memory_def random_estimate_def split: option.splits)

lemma tab_loop_numeric: "t \<in> set (tab_loop rm rnd i k ls) \<Longrightarrow> ChromeTab.memory t \<noteq> NaN"
  by (induction ls arbitrary: i k) (auto simp: Let_def estimated_memory_numeric)

lemma map_set_values: "e \<in> set (map_set k v m) \<Longrightarrow> snd e = v \<or> e \<in> set m"
  by (induction m) (auto split: if_splits)

lemma window_loop_values: "e \<in> set (window_loop share ws m) \<Longrightarrow> snd e = share \<or> e \<in> set m"
  by (induction ws arbitrary: m) (auto simp: Let_def dest: map_set_values)

lemma vscode_unsorted_constant:
  "\<exists>m. \<forall>w \<in> set (vscode_unsorted output windowsSrc). VSCodeWorkspace.memory w = m"
proof (cases windowsSrc)
  case None
  then show ?thesis by (simp add: vscode_unsorted_def workspace_entries_def case_prod_beta)
next
  case (Some windowsOutput)
  then show ?thesis
    by (auto simp: vscode_unsorted_def workspace_entries_def Let_def dest!: window_loop_values)
qed

subsection \<open>The snapshot of the sample inputs\<close>

lemma sample_snapshot:
  "getSystemMemory sample_sources
   = Inr \<lparr>total = Num 32, used = Num 14, free = Num 18,
          apps = [\<lparr>AppMemory.name = str ''Python'', memory = Num 200, processes = Num 1,
                   color = str ''#3776ab''\<rparr>],
          chromeTabs =
            [\<lparr>title = str ''Inbox'', url = str ''https://mail'', memory = Num 200\<rparr>,
             \<lparr>title = str ''News'', url = str ''https://news'', memory = Num 50\<rparr>],
          pythonProcesses = [],
          claudeSessions =
            [\<lparr>workingDir = [], projectName = str ''Home'', memory = Num 977, pid = Num 9,
              isSubagent = False\<rparr>],
          vscodeWorkspaces =
            [\<lparr>path = str ''VS Code (total)'', memory = Num 977, processes = Num 1\<rparr>],
          timestamp = 0\<rparr>"
  using round_div_int [of 1024 204800] round_div_int [of 1024 999999] round_div_int [of 1 200]
    round_div_int [of 1 32] round_div_int [of 1 140] round_div_int [of 1 180]
  by (simp add: sample_sources_def sample_table_def eval_strings eval_numbers eval_tabs
      eval_snapshot random_estimate_0 appPatterns_def includes_ci_def canon_def
      line_terminator_def)

lemma sample_claude_sessions:
  "getClaudeSessions (Some sample_claude_table) sample_lookup
   = [\<lparr>workingDir = [], projectName = str ''Home'', memory = Num 977, pid = Num 9,
       isSubagent = False\<rparr>,
      \<lparr>workingDir = str ''/Users/maxghenis/ram-dashboard'',
       projectName = str ''ram-dashboard'', memory = Num 200, pid = Num 8,
       isSubagent = True\<rparr>]"
  using round_div_int [of 1024 999999] round_div_int [of 1024 204800]
  by (simp add: sample_claude_table_def sample_lookup_def eval_strings eval_numbers
      eval_snapshot)

section \<open>The classifier loop\<close>

lemma map_of_map_set: "map_of (map_set k v m) = (map_of m)(k \<mapsto> v)"
  by (induction m) (auto simp: fun_eq_iff)

lemma keys_map_set:
  "map fst (map_set k v m) = (if k \<in> set (map fst m) then map fst m else map fst m @ [k])"
  by (induction m) (force simp: image_iff)+

lemma distinct_map_set: "distinct (map fst m) \<Longrightarrow> distinct (map fst (map_set k v m))"
  by (simp add: keys_map_set)

lemma classify_find:
  "classify rules command rss m =
     (case find (\<lambda>app. pattern app command) rules of
        None \<Rightarrow> m
      | Some app \<Rightarrow>
          map_set (rule_name app)
            (case map_of m (rule_name app) of
               Some cur \<Rightarrow> (js_add (fst cur) rss, js_add (fst (snd cur)) (Num 1), snd (snd cur))
             | None \<Rightarrow> (js_add (Num 0) rss, js_add (Num 0) (Num 1), rule_color app))
            m)"
  by (induction rules) (auto simp: map_get_def Let_def split: option.splits)

lemma apps_loop_step:
  "apps_loop rules (line # lines) m =
     apps_loop rules lines
       (case first_match rules line of
          None \<Rightarrow> m
        | Some app \<Rightarrow>
            map_set (rule_name app)
              (case map_of m (rule_name app) of
                 Some cur \<Rightarrow>
                   (js_add (fst cur) (rss_mb line), js_add (fst (snd cur)) (Num 1), snd (snd cur))
               | None \<Rightarrow> (js_add (Num 0) (rss_mb line), js_add (Num 0) (Num 1), rule_color app))
              m)"
  by (simp add: first_match_def Let_def classify_find rss_mb_def cong: option.case_cong)

lemma distinct_apps_loop:
  "distinct (map fst m) \<Longrightarrow> distinct (map fst (apps_loop rules lines m))"
proof (induction lines arbitrary: m)
  case Nil
  then show ?case by simp
next
  case (Cons line lines)
  show ?case
    unfolding apps_loop_step
    by (rule Cons.IH) (auto simp: distinct_map_set Cons.prems split: option.splits)
qed

lemma add_lines_Nil: "add_lines acc [] = acc"
  by (simp add: add_lines_def)

lemma add_lines_Cons:
  "add_lines acc (l # ls) = add_lines (js_add (fst acc) (rss_mb l), js_add (snd acc) (Num 1)) ls"
  by (simp add: add_lines_def)

lemma totals_apps_loop:
  "totals (apps_loop rules lines m) g =
     (case totals m g of
        Some acc \<Rightarrow> Some (add_lines acc (owned_by rules g lines))
      | None \<Rightarrow>
          if owned_by rules g lines = [] then None
          else Some (add_lines (Num 0, Num 0) (owned_by rules g lines)))"
proof (induction lines arbitrary: m)
  case Nil
  then show ?case by (simp add: owned_by_def add_lines_Nil split: option.splits)
next
  case (Cons line lines)
  show ?case
  proof (cases "first_match rules line")
    case None
    then show ?thesis
      unfolding apps_loop_step by (simp add: Cons.IH owned_by_def split: option.splits)
  next
    case (Some app)
    show ?thesis
    proof (cases "rule_name app = g")
      case True
      define upd where "upd =
        (case map_of m (rule_name app) of
           Some cur \<Rightarrow>
             (js_add (fst cur) (rss_mb line), js_add (fst (snd cur)) (Num 1), snd (snd cur))
         | None \<Rightarrow> (js_add (Num 0) (rss_mb line), js_add (Num 0) (Num 1), rule_color app))"
      define acc where "acc = (case totals m g of Some a \<Rightarrow> a | None \<Rightarrow> (Num 0, Num 0))"
      have step: "apps_loop rules (line # lines) m = apps_loop rules lines (map_set g upd m)"
        unfolding apps_loop_step upd_def using Some True by simp
      have t': "totals (map_set g upd m) g
                = Some (js_add (fst acc) (rss_mb line), js_add (snd acc) (Num 1))"
        by (simp add: totals_def map_of_map_set upd_def acc_def True split: option.splits)
      have own: "owned_by rules g (line # lines) = line # owned_by rules g lines"
        using Some True by (simp add: owned_by_def)
      show ?thesis
        unfolding step Cons.IH t' own
        by (simp add: add_lines_Cons acc_def split: option.splits)
    next
      case False
      have own: "owned_by rules g (line # lines) = owned_by rules g lines"
        using Some False by (simp add: owned_by_def)
      have t': "totals (map_set (rule_name app) v m) g = totals m g" for v
        using False by (simp add: totals_def map_of_map_set)
      show ?thesis
        unfolding apps_loop_step Cons.IH own using Some by (simp add: t')
    qed
  qed
qed

lemma count_lines: "foldl (\<lambda>n l. js_add n (Num 1)) (Num c) ls = Num (c + of_nat (length ls))"
  by (induction ls arbitrary: c) (simp_all add: add.assoc)

lemma distinct_map_insert_sorted:
  "distinct (map f (insert_sorted cmp x xs)) = (f x \<notin> f ` set xs \<and> distinct (map f xs))"
  by (induction xs) (auto simp: set_insert_sorted)

lemma distinct_map_js_sort: "distinct (map f (js_sort cmp xs)) = distinct (map f xs)"
  by (induction xs) (simp_all add: js_sort_Nil js_sort_Cons distinct_map_insert_sorted set_js_sort)

lemma apps_unsorted_names:
  "map AppMemory.name (apps_unsorted rules psOutput) = map fst (apps_loop rules (table_lines psOutput) [])"
  by (simp add: apps_unsorted_def case_prod_beta)

lemma app_groups_member:
  "(a \<in> set (app_groups rules psOutput) \<and> AppMemory.name a = g)
   = (\<exists>m k c. map_of (apps_loop rules (table_lines psOutput) []) g = Some (m, k, c)
        \<and> a = \<lparr>AppMemory.name = g, memory = math_round m, processes = k, color = c\<rparr>)"
proof -
  let ?loop = "apps_loop rules (table_lines psOutput) []"
  let ?conv = "\<lambda>(n, m, k, c).
      \<lparr>AppMemory.name = n, memory = math_round m, processes = k, color = c\<rparr>"
  have d: "distinct (map fst ?loop)"
    by (rule distinct_apps_loop) simp
  have s: "set (app_groups rules psOutput) = ?conv ` set ?loop"
    by (simp add: app_groups_def set_js_sort apps_unsorted_def)
  show ?thesis
  proof
    assume "a \<in> set (app_groups rules psOutput) \<and> AppMemory.name a = g"
    then obtain e where e: "e \<in> set ?loop" "a = ?conv e" and g: "AppMemory.name a = g"
      unfolding s by auto
    obtain n m k c where nm: "e = (n, m, k, c)" by (cases e) auto
    with e g have "(g, m, k, c) \<in> set ?loop" by simp
    with d have "map_of ?loop g = Some (m, k, c)" by simp
    with e nm g show "\<exists>m k c. map_of ?loop g = Some (m, k, c)
        \<and> a = \<lparr>AppMemory.name = g, memory = math_round m, processes = k, color = c\<rparr>"
      by auto
  next
    assume "\<exists>m k c. map_of ?loop g = Some (m, k, c)
        \<and> a = \<lparr>AppMemory.name = g, memory = math_round m, processes = k, color = c\<rparr>"
    then obtain m k c where mk: "map_of ?loop g = Some (m, k, c)"
      and a: "a = \<lparr>AppMemory.name = g, memory = math_round m, processes = k, color = c\<rparr>"
      by auto
    from mk have "(g, m, k, c) \<in> set ?loop" by (rule map_of_SomeD)
    then have "?conv (g, m, k, c) \<in> ?conv ` set ?loop" by (rule imageI)
    with a show "a \<in> set (app_groups rules psOutput) \<and> AppMemory.name a = g"
      unfolding s by simp
  qed
qed

lemma sample_groups:
  "app_groups appPatterns sample_table
   = [\<lparr>AppMemory.name = str ''Python'', memory = Num 200, processes = Num 1,
       color = str ''#3776ab''\<rparr>]"
  using round_div_int [of 1 200]
  by (simp add: sample_table_def eval_strings eval_numbers eval_snapshot appPatterns_def
      includes_ci_def canon_def line_terminator_def)

section \<open>The script-name pattern\<close>

lemma includes_str_iff: "includes_str s sub = (\<exists>ps ss. s = ps @ sub @ ss)"
proof (induction s)
  case Nil
  then show ?case by simp
next
  case (Cons c cs)
  show ?case
  proof
    assume "includes_str (c # cs) sub"
    then consider "prefix sub (c # cs)" | "includes_str cs sub" by auto
    then show "\<exists>ps ss. c # cs = ps @ sub @ ss"
    proof cases
      case 1
      then obtain ss where "c # cs = sub @ ss" by (auto simp: prefix_def)
      then have "c # cs = [] @ sub @ ss" by simp
      then show ?thesis by blast
    next
      case 2
      then obtain ps ss where "cs = ps @ sub @ ss" using Cons.IH by auto
      then have "c # cs = (c # ps) @ sub @ ss" by simp
      then show ?thesis by blast
    qed
  next
    assume "\<exists>ps ss. c # cs = ps @ sub @ ss"
    then obtain ps ss where e: "c # cs = ps @ sub @ ss" by auto
    show "includes_str (c # cs) sub"
    proof (cases ps)
      case Nil
      then have "prefix sub (c # cs)" using e by (simp add: prefix_def)
      then show ?thesis by simp
    next
      case (Cons a ps')
      then have "cs = ps' @ sub @ ss" using e by simp
      then have "includes_str cs sub" using Cons.IH by auto
      then show ?thesis by simp
    qed
  qed
qed

lemma py_backtrack_none:
  "(\<forall>j. 1 \<le> j \<and> j \<le> n \<longrightarrow> \<not> prefix (str ''.py'') (drop j s)) \<Longrightarrow> py_backtrack n s = None"
  by (induction n) auto

lemma py_class_dotpy: "py_class 46 \<and> py_class 112 \<and> py_class 121"
  by (simp add: py_class_def is_ws_def)

lemma prefix_dotpy_cases:
  "prefix (str ''.py'') (d @ c # w) \<Longrightarrow> (\<exists>d'. d = str ''.py'' @ d') \<or> c = 46 \<or> c = 112 \<or> c = 121"
  by (cases d; cases "tl d"; cases "tl (tl d)") (auto simp: str_def)

text \<open>
  An earlier match needs a character of the class directly before \<^verbatim>\<open>.py\<close>; where the text
  before a delimiter has none, no match starts in it.
\<close>

lemma py_match_at_delimited:
  assumes "\<forall>c. py_class c \<longrightarrow> \<not> includes_str (v @ u) (c # str ''.py'')"
    and "u \<noteq> []" and "\<not> py_class (last u)"
  shows "py_match_at (u @ rest) = None"
proof -
  let ?r = "takeWhile py_class u"
  have ex: "\<exists>x \<in> set u. \<not> py_class x"
    using assms(2,3) last_in_set by blast
  then have run: "takeWhile py_class (u @ rest) = ?r"
    by (metis takeWhile_append1)
  from ex have "dropWhile py_class u \<noteq> []" by (simp add: dropWhile_eq_Nil_conv)
  then obtain c u' where cu: "dropWhile py_class u = c # u'" by (cases "dropWhile py_class u") auto
  then have c: "\<not> py_class c" using hd_dropWhile [of py_class u] by simp
  have u: "u = ?r @ c # u'" using cu takeWhile_dropWhile_id [of py_class u] by simp
  have "\<not> prefix (str ''.py'') (drop j (u @ rest))" if j: "1 \<le> j" "j \<le> length ?r" for j
  proof
    assume p: "prefix (str ''.py'') (drop j (u @ rest))"
    have "drop j (u @ rest) = drop j ?r @ c # (u' @ rest)"
      using j by (subst u) simp
    with p consider d' where "drop j ?r = str ''.py'' @ d'" | "c = 46 \<or> c = 112 \<or> c = 121"
      using prefix_dotpy_cases [of "drop j ?r" c "u' @ rest"] by auto
    then show False
    proof cases
      case 1
      obtain i where i: "j = Suc i" using j(1) by (cases j) auto
      then have il: "i < length ?r" using j(2) by simp
      then have cls: "py_class (?r ! i)"
        using nth_mem [of i ?r] set_takeWhileD [of "?r ! i" py_class u] by simp
      have "?r = take i ?r @ ?r ! i # drop j ?r"
        using il i id_take_nth_drop [of i ?r] by simp
      then have "?r = take i ?r @ (?r ! i # str ''.py'') @ d'"
        using 1 by simp
      then have "v @ u = (v @ take i ?r) @ (?r ! i # str ''.py'') @ (d' @ c # u')"
        using u by (metis append.assoc)
      then have "includes_str (v @ u) (?r ! i # str ''.py'')"
        unfolding includes_str_iff by blast
      then show False using assms(1) cls by blast
    next
      case 2
      then show False using c py_class_dotpy by auto
    qed
  qed
  then show ?thesis
    unfolding py_match_at_def run by (intro py_backtrack_none) simp
qed

lemma py_match_skip:
  "\<forall>c. py_class c \<longrightarrow> \<not> includes_str pre (c # str ''.py'') \<Longrightarrow>
   pre = [] \<or> \<not> py_class (last pre) \<Longrightarrow>
   py_match (pre @ rest) = py_match rest"
proof (induction pre rule: rev_induct)
  case Nil
  then show ?case by simp
next
  case (snoc x pre)
  have last: "\<not> py_class x" using snoc.prems(2) by simp
  have inner: "py_match (u @ [x] @ rest) = py_match rest"
    if "\<exists>v. pre = v @ u" for u
    using that
  proof (induction u)
    case Nil
    have "py_match_at ([x] @ rest) = None"
      using py_match_at_delimited [of pre "[x]" rest] snoc.prems(1) last by simp
    then show ?case by simp
  next
    case (Cons a u)
    then obtain v where v: "pre = v @ a # u" by auto
    have "py_match_at ((a # u @ [x]) @ rest) = None"
      using py_match_at_delimited [of v "a # u @ [x]" rest] snoc.prems(1) last v by simp
    moreover have "py_match (u @ [x] @ rest) = py_match rest"
      using Cons.IH v by (metis append.assoc append_Cons append_Nil)
    ultimately show ?case by simp
  qed
  show ?case using inner [of pre] by simp
qed

lemma py_match_at_token:
  assumes "stem \<noteq> []" and "\<forall>c \<in> set stem. py_class c" and "post = [] \<or> \<not> py_class (hd post)"
  shows "py_match_at (stem @ str ''.py'' @ post) = Some (stem @ str ''.py'')"
proof -
  let ?s = "stem @ str ''.py'' @ post"
  have cls: "\<forall>c \<in> set (stem @ str ''.py''). py_class c"
    using assms(2) py_class_dotpy by (auto simp: str_def)
  have "takeWhile py_class post = []"
    using assms(3) by (cases post) auto
  then have run: "takeWhile py_class ?s = stem @ str ''.py''"
    using cls takeWhile_append2 [of "stem @ str ''.py''" py_class post] by simp
  have np: "\<not> prefix (str ''.py'') post"
    using assms(3) py_class_dotpy by (cases post) (auto simp: str_def)
  obtain m where m: "length stem = Suc m" using assms(1) by (cases stem) auto
  have "py_backtrack (Suc (Suc (Suc (Suc m)))) ?s = Some (stem @ str ''.py'')"
    using np m by (simp add: str_def)
  then show ?thesis
    unfolding py_match_at_def run using m by (simp add: str_def)
qed

section \<open>The Python scenario\<close>

text \<open>
  C7.  On the process lines of pid 100 (RSS 204800 KB, command
  \<^verbatim>\<open>/usr/bin/python3 ingest_pipeline.py\<close>) and pid 101 (RSS 5120 KB, command
  \<^verbatim>\<open>/usr/bin/python3 tiny.py\<close>), \<open>getPythonProcesses\<close> returns exactly the entry
  \<^verbatim>\<open>ingest_pipeline.py\<close>, 200 MB, pid 100.  The first command contains the marker
  \<^verbatim>\<open>ingest\<close> and is still labelled by its \<^verbatim>\<open>.py\<close> file; the second earns the label
  \<^verbatim>\<open>tiny.py\<close> and is dropped, its 5 MB not being above 10.
\<close>

theorem python_scenario:
  "getPythonProcesses
     (Some (str ''max 100 0.0 1.2 410000 204800 ?? S 9:00AM 0:01.00 /usr/bin/python3 ingest_pipeline.py''
            @ [10]
            @ str ''max 101 0.0 0.1 410000 5120 ?? S 9:00AM 0:01.00 /usr/bin/python3 tiny.py''
            @ [10]))
   = [\<lparr>script = str ''ingest_pipeline.py'', memory = Num 200, pid = Num 100\<rparr>]
   \<and> includes_str (str ''/usr/bin/python3 ingest_pipeline.py'') (str ''ingest'')
   \<and> script_label (str ''/usr/bin/python3 tiny.py'') (Num 5) = Some (str ''tiny.py'')
   \<and> \<not> js_gt (Num 5) (Num 10)"
  using round_div_int [of 1024 204800] round_div_int [of 1024 5120]
  by (simp add: eval_strings eval_numbers getPythonProcesses_def memory_mb_def
      script_label_def py_match_at_def py_class_def js_sort_def compare_desc_def)

section \<open>Browser tabs\<close>



text \<open>
  C5 (amended).  Let \<^verbatim>\<open>Math.random()\<close> return values in \<open>[0, 1)\<close>.  The loop over \<open>T\<close> tab
  lines produces \<open>T\<close> entries, and so does \<open>getChromeTabs\<close>.  The tab at index \<open>i\<close> gets the
  \<open>i\<close>-th renderer value when that value exists and is truthy (neither \<open>0\<close> nor \<open>NaN\<close>);
  every other tab, that is every tab beyond the renderer list and every tab whose renderer
  value is \<open>0\<close> or \<open>NaN\<close>, gets an integer estimate between 50 and 150.
\<close>

theorem tab_correlation:
  assumes "\<forall>k. 0 \<le> rnd k \<and> rnd k < 1"
  shows "length (tab_loop rm rnd 0 0 tabLines) = length tabLines
    \<and> length (getChromeTabs (Some psOutput) (Some tabsOutput) rnd) = length (tab_lines tabsOutput)
    \<and> (i < length tabLines \<longrightarrow>
         (if i < length rm \<and> truthy_num (rm ! i)
          then ChromeTab.memory (tab_loop rm rnd 0 0 tabLines ! i) = rm ! i
          else \<exists>n::int. ChromeTab.memory (tab_loop rm rnd 0 0 tabLines ! i) = Num (of_int n)
                 \<and> 50 \<le> n \<and> n \<le> 150))"
proof (intro conjI impI)
  show "length (tab_loop rm rnd 0 0 tabLines) = length tabLines"
    by (rule length_tab_loop)
  show "length (getChromeTabs (Some psOutput) (Some tabsOutput) rnd) = length (tab_lines tabsOutput)"
    by (simp add: getChromeTabs_def length_js_sort chrome_unsorted_def length_tab_loop)
next
  assume i: "i < length tabLines"
  show "if i < length rm \<and> truthy_num (rm ! i)
          then ChromeTab.memory (tab_loop rm rnd 0 0 tabLines ! i) = rm ! i
          else \<exists>n::int. ChromeTab.memory (tab_loop rm rnd 0 0 tabLines ! i) = Num (of_int n)
                 \<and> 50 \<le> n \<and> n \<le> 150"
  proof (cases "i < length rm \<and> truthy_num (rm ! i)")
    case True
    then show ?thesis using tab_loop_known [of i tabLines 0 rm rnd 0] i by simp
  next
    case False
    then obtain k' where "ChromeTab.memory (tab_loop rm rnd 0 0 tabLines ! i) = random_estimate (rnd k')"
      using tab_loop_estimate [of i tabLines 0 rm rnd 0] i by auto
    then show ?thesis using False random_estimate_range [of "rnd k'"] assms by auto
  qed
qed

theorem tab_correlation_witness:
  "length (tab_loop [Num 200] (\<lambda>k. 1 / 2) 0 0 [str ''A|||u'', str ''B|||v'']) = 2
   \<and> ChromeTab.memory (tab_loop [Num 200] (\<lambda>k. 1 / 2) 0 0 [str ''A|||u'', str ''B|||v''] ! 0) = Num 200
   \<and> (\<exists>n::int. ChromeTab.memory (tab_loop [Num 200] (\<lambda>k. 1 / 2) 0 0 [str ''A|||u'', str ''B|||v''] ! 1)
          = Num (of_int n) \<and> 50 \<le> n \<and> n \<le> 150)"
  using tab_correlation [of "\<lambda>k. 1 / 2" "[Num 200]" "[str ''A|||u'', str ''B|||v'']" "[]" "[]" 0]
    tab_correlation [of "\<lambda>k. 1 / 2" "[Num 200]" "[str ''A|||u'', str ''B|||v'']" "[]" "[]" 1]
  by simp

text \<open>
  The claim as stated fails for a renderer of less than 512 KB: its value rounds to \<open>0\<close>,
  which \<^verbatim>\<open>||\<close> replaces by an estimate although the tab's index is inside the renderer
  list.
\<close>

theorem tab_correlation_counterexample:
  "renderer_memory (str ''max 7 0.0 0.1 410000 100 ?? S 9:00AM 0:00.10 Google Chrome Helper (Renderer)'') = Num 0
   \<and> length [Num 0] < length [str ''A|||u'', str ''B|||v'']
   \<and> ChromeTab.memory (tab_loop [Num 0] (\<lambda>k. 0) 0 0 [str ''A|||u'', str ''B|||v''] ! 0) = Num 50
   \<and> [Num 0] ! 0 \<noteq> Num 50"
  using round_div_int [of 1024 100]
  by (simp add: eval_strings eval_numbers eval_tabs random_estimate_0)

section \<open>Failure of the external sources\<close>

text \<open>
  C2 (amended).  Each of the four detail operations returns the empty list when its
  process-table command raises, and \<open>getChromeTabs\<close> also when its tab enumeration raises.
  When the window enumeration of \<open>getVSCodeWorkspaces\<close> raises, the result is the single
  entry \<^verbatim>\<open>VS Code (total)\<close> holding the totals.  A working-directory lookup of
  \<open>getClaudeSessions\<close> that raises keeps its session, with an empty working directory: the
  sessions returned, with their memory, process id and role, are the same whatever the
  lookups do, and the working directory of each is the trimmed result of its own lookup,
  or empty when that lookup raised.  In \<open>getSystemMemory\<close>, the failure of one operation's
  command empties that operation's list and changes no other field of the snapshot.
\<close>

theorem detail_failure_isolated:
  "getPythonProcesses None = []
   \<and> getClaudeSessions None lsof = []
   \<and> getVSCodeWorkspaces None windowsSrc = []
   \<and> getChromeTabs None tabsSrc rnd = []
   \<and> getChromeTabs psSrc None rnd = []
   \<and> getVSCodeWorkspaces (Some output) None
       = [\<lparr>path = str ''VS Code (total)'',
           memory = fst (vscode_totals (output_lines output) (Num 0, Num 0)),
           processes = snd (vscode_totals (output_lines output) (Num 0, Num 0))\<rparr>]
   \<and> map ClaudeSession.memory (getClaudeSessions psSrc (\<lambda>p. None))
       = map ClaudeSession.memory (getClaudeSessions psSrc lsof)
   \<and> (\<forall>s \<in> set (getClaudeSessions psSrc (\<lambda>p. None)). workingDir s = [])
   \<and> map (\<lambda>s. (ClaudeSession.memory s, ClaudeSession.pid s, isSubagent s))
         (getClaudeSessions psSrc lsof)
       = map (\<lambda>s. (ClaudeSession.memory s, ClaudeSession.pid s, isSubagent s))
           (getClaudeSessions psSrc lsof')
   \<and> (\<forall>s \<in> set (getClaudeSessions psSrc lsof).
         workingDir s
         = (case lsof (ClaudeSession.pid s) of None \<Rightarrow> [] | Some out \<Rightarrow> trim out))
   \<and> (\<forall>s \<in> set (getClaudeSessions psSrc lsof).
         lsof (ClaudeSession.pid s) = None \<longrightarrow> workingDir s = [])
   \<and> getSystemMemory (src\<lparr>ps_python := None\<rparr>)
       = map_sum id (\<lambda>s. s\<lparr>pythonProcesses := []\<rparr>) (getSystemMemory src)
   \<and> getSystemMemory (src\<lparr>ps_claude := None\<rparr>)
       = map_sum id (\<lambda>s. s\<lparr>claudeSessions := []\<rparr>) (getSystemMemory src)
   \<and> getSystemMemory (src\<lparr>ps_vscode := None\<rparr>)
       = map_sum id (\<lambda>s. s\<lparr>vscodeWorkspaces := []\<rparr>) (getSystemMemory src)
   \<and> getSystemMemory (src\<lparr>ps_chrome := None\<rparr>)
       = map_sum id (\<lambda>s. s\<lparr>chromeTabs := []\<rparr>) (getSystemMemory src)
   \<and> getSystemMemory (src\<lparr>chrome_tab_list := None\<rparr>)
       = map_sum id (\<lambda>s. s\<lparr>chromeTabs := []\<rparr>) (getSystemMemory src)"
proof -
  have a: "map ClaudeSession.memory (claude_loop (\<lambda>p. None) ls)
           = map ClaudeSession.memory (claude_loop lsof ls)" for ls
    by (induction ls) (simp_all add: Let_def)
  have b: "s \<in> set (claude_loop (\<lambda>p. None) ls) \<Longrightarrow> workingDir s = []" for s ls
    by (induction ls) (auto simp: Let_def split: if_splits)
  have e: "map ClaudeSession.memory (getClaudeSessions psSrc (\<lambda>p. None))
           = map ClaudeSession.memory (getClaudeSessions psSrc lsof)"
    by (cases psSrc) (simp_all add: getClaudeSessions_def map_js_sort a)
  have f: "\<forall>s \<in> set (getClaudeSessions psSrc (\<lambda>p. None)). workingDir s = []"
    by (cases psSrc) (auto simp: getClaudeSessions_def set_js_sort dest: b)
  let ?core = "\<lambda>s. (ClaudeSession.memory s, ClaudeSession.pid s, isSubagent s)"
  have m: "map ?core (claude_loop lk ls) = map ?core (claude_loop lk' ls)" for lk lk' ls
    by (induction ls) (simp_all add: Let_def)
  have n: "map ?core (getClaudeSessions psSrc lsof) = map ?core (getClaudeSessions psSrc lsof')"
  proof (cases psSrc)
    case None
    then show ?thesis by (simp add: getClaudeSessions_def)
  next
    case (Some out)
    have srt: "map ?core (js_sort (compare_desc ClaudeSession.memory) xs)
               = js_sort (compare_desc fst) (map ?core xs)" for xs
      by (rule map_js_sort_key) simp
    show ?thesis
      unfolding Some getClaudeSessions_def option.case srt
      by (simp only: m [of lsof _ lsof'])
  qed
  have o: "s \<in> set (claude_loop lsof ls) \<Longrightarrow>
        workingDir s = (case lsof (ClaudeSession.pid s) of None \<Rightarrow> [] | Some out \<Rightarrow> trim out)"
    for s ls
    by (induction ls) (auto simp: Let_def split: if_splits)
  have q: "\<forall>s \<in> set (getClaudeSessions psSrc lsof).
        workingDir s = (case lsof (ClaudeSession.pid s) of None \<Rightarrow> [] | Some out \<Rightarrow> trim out)"
    by (cases psSrc) (auto simp: getClaudeSessions_def set_js_sort dest: o)
  have r: "\<forall>s \<in> set (getClaudeSessions psSrc lsof).
        lsof (ClaudeSession.pid s) = None \<longrightarrow> workingDir s = []"
    using q by simp
  have g: "getVSCodeWorkspaces (Some output) None
       = [\<lparr>path = str ''VS Code (total)'',
           memory = fst (vscode_totals (output_lines output) (Num 0, Num 0)),
           processes = snd (vscode_totals (output_lines output) (Num 0, Num 0))\<rparr>]"
    by (simp add: getVSCodeWorkspaces_def vscode_unsorted_def workspace_entries_def js_sort_def
        case_prod_beta)
  have h: "getSystemMemory (src\<lparr>ps_python := None\<rparr>)
       = map_sum id (\<lambda>s. s\<lparr>pythonProcesses := []\<rparr>) (getSystemMemory src)"
    by (simp add: getSystemMemory_def getPythonProcesses_def Let_def split: option.splits)
  have i: "getSystemMemory (src\<lparr>ps_claude := None\<rparr>)
       = map_sum id (\<lambda>s. s\<lparr>claudeSessions := []\<rparr>) (getSystemMemory src)"
    by (simp add: getSystemMemory_def getClaudeSessions_def Let_def split: option.splits)
  have j: "getSystemMemory (src\<lparr>ps_vscode := None\<rparr>)
       = map_sum id (\<lambda>s. s\<lparr>vscodeWorkspaces := []\<rparr>) (getSystemMemory src)"
    by (simp add: getSystemMemory_def getVSCodeWorkspaces_def Let_def split: option.splits)
  have k: "getSystemMemory (src\<lparr>ps_chrome := None\<rparr>)
       = map_sum id (\<lambda>s. s\<lparr>chromeTabs := []\<rparr>) (getSystemMemory src)"
    by (simp add: getSystemMemory_def getChromeTabs_def Let_def split: option.splits)
  have l: "getSystemMemory (src\<lparr>chrome_tab_list := None\<rparr>)
       = map_sum id (\<lambda>s. s\<lparr>chromeTabs := []\<rparr>) (getSystemMemory src)"
    by (simp add: getSystemMemory_def getChromeTabs_def Let_def split: option.splits)
  have first: "getPythonProcesses None = [] \<and> getClaudeSessions None lsof = []
      \<and> getVSCodeWorkspaces None windowsSrc = [] \<and> getChromeTabs None tabsSrc rnd = []
      \<and> getChromeTabs psSrc None rnd = []"
    by (simp add: getPythonProcesses_def getClaudeSessions_def getVSCodeWorkspaces_def
        getChromeTabs_def split: option.splits)
  show ?thesis
    using first e f g h i j k l n q r by blast
qed

theorem detail_failure_isolated_witness:
  "getPythonProcesses None = []
   \<and> getChromeTabs (ps_chrome sample_sources) None (\<lambda>k. 0) = []
   \<and> getSystemMemory (sample_sources\<lparr>ps_claude := None\<rparr>)
       = map_sum id (\<lambda>s. s\<lparr>claudeSessions := []\<rparr>) (getSystemMemory sample_sources)
   \<and> getSystemMemory (sample_sources\<lparr>ps_vscode := None\<rparr>)
       = map_sum id (\<lambda>s. s\<lparr>vscodeWorkspaces := []\<rparr>) (getSystemMemory sample_sources)
   \<and> getSystemMemory (sample_sources\<lparr>ps_chrome := None\<rparr>)
       = map_sum id (\<lambda>s. s\<lparr>chromeTabs := []\<rparr>) (getSystemMemory sample_sources)
   \<and> map workingDir (getClaudeSessions (Some sample_claude_table) sample_lookup)
       = [[], str ''/Users/maxghenis/ram-dashboard'']"
  using detail_failure_isolated [where lsof = sample_lookup and lsof' = "\<lambda>p. None"
      and windowsSrc = None and tabsSrc = None and rnd = "\<lambda>k. 0"
      and psSrc = "Some sample_claude_table" and src = sample_sources]
    detail_failure_isolated [where lsof = sample_lookup and lsof' = "\<lambda>p. None"
      and windowsSrc = None and tabsSrc = None and rnd = "\<lambda>k. 0"
      and psSrc = "ps_chrome sample_sources" and src = sample_sources]
  by (simp add: sample_claude_sessions sample_lookup_def)

text \<open>
  The claim as stated fails for the two secondary sources: with the window enumeration
  raising, \<open>getVSCodeWorkspaces\<close> returns one entry, and with the working-directory lookup
  raising, \<open>getClaudeSessions\<close> still returns the session.
\<close>

theorem detail_failure_isolated_counterexample:
  "getVSCodeWorkspaces
     (Some (str ''max 10 0.0 0.1 410000 999999 ?? S 9:00AM 0:00.10 Code Helper'' @ [10])) None
   = [\<lparr>path = str ''VS Code (total)'', memory = Num 977, processes = Num 1\<rparr>]
   \<and> getClaudeSessions
       (Some (str ''max 9 0.0 0.1 410000 999999 ?? S 9:00AM 0:00.10 claude'' @ [10])) (\<lambda>p. None)
     = [\<lparr>workingDir = [], projectName = str ''Home'', memory = Num 977, pid = Num 9,
         isSubagent = False\<rparr>]"
  using round_div_int [of 1024 999999]
  by (simp add: eval_strings eval_numbers eval_snapshot)

lemma getSystemMemory_rejects:
  "sysctl_memsize src = None \<or> vm_stat src = None \<or> ps_aux src = None
   \<Longrightarrow> getSystemMemory src = Inl ShellError"
  by (auto simp: getSystemMemory_def split: option.splits)

text \<open>
  C3.  When the full process table or the virtual-memory statistics cannot be obtained,
  \<open>getSystemMemory\<close> should still return a snapshot, with empty lists and zero totals, and
  raise nothing.  It does not: the commands of the four detail operations are each awaited
  inside a \<^verbatim>\<open>try\<close> whose \<^verbatim>\<open>catch\<close> returns the empty list, but the three commands of the
  body of \<open>getSystemMemory\<close> are awaited outside any \<^verbatim>\<open>try\<close>.  On the sample inputs with
  the process table unavailable, and likewise with the statistics unavailable, the result
  is the failure and no snapshot, while \<open>getPythonProcesses\<close> on its unavailable source
  returns the empty list.
\<close>

theorem top_level_failure_raises:
  "getSystemMemory (sample_sources\<lparr>ps_aux := None\<rparr>) = Inl ShellError
   \<and> getSystemMemory (sample_sources\<lparr>vm_stat := None\<rparr>) = Inl ShellError
   \<and> getPythonProcesses None = []"
  by (simp add: getSystemMemory_rejects getPythonProcesses_def)

section \<open>Two runs on the same inputs\<close>

text \<open>
  C4 (amended).  Two runs on the same text inputs, with any two clocks and any two
  sequences of \<^verbatim>\<open>Math.random()\<close> values, return snapshots that agree in every field except
  the timestamp and the tab list.  The tab lists agree as well when no estimate is drawn:
  when every tab has a renderer value at its index that is neither \<open>0\<close> nor \<open>NaN\<close>, or
  when one of the two Chrome commands raises.
\<close>

theorem snapshot_deterministic:
  "map_sum id (\<lambda>s. s\<lparr>chromeTabs := [], timestamp := 0\<rparr>)
       (getSystemMemory (src\<lparr>math_random := r1, clock := t1\<rparr>))
     = map_sum id (\<lambda>s. s\<lparr>chromeTabs := [], timestamp := 0\<rparr>)
       (getSystemMemory (src\<lparr>math_random := r2, clock := t2\<rparr>))
   \<and> (ps_chrome src = Some psOutput \<and> chrome_tab_list src = Some tabsOutput
       \<and> (\<forall>i<length (tab_lines tabsOutput). i < length (output_lines psOutput)
              \<and> truthy_num (renderer_memory (output_lines psOutput ! i)))
      \<longrightarrow> map_sum id (\<lambda>s. s\<lparr>timestamp := 0\<rparr>)
            (getSystemMemory (src\<lparr>math_random := r1, clock := t1\<rparr>))
          = map_sum id (\<lambda>s. s\<lparr>timestamp := 0\<rparr>)
            (getSystemMemory (src\<lparr>math_random := r2, clock := t2\<rparr>)))
   \<and> (ps_chrome src = None \<or> chrome_tab_list src = None
      \<longrightarrow> map_sum id (\<lambda>s. s\<lparr>timestamp := 0\<rparr>)
            (getSystemMemory (src\<lparr>math_random := r1, clock := t1\<rparr>))
          = map_sum id (\<lambda>s. s\<lparr>timestamp := 0\<rparr>)
            (getSystemMemory (src\<lparr>math_random := r2, clock := t2\<rparr>)))"
proof (intro conjI impI)
  show "map_sum id (\<lambda>s. s\<lparr>chromeTabs := [], timestamp := 0\<rparr>)
       (getSystemMemory (src\<lparr>math_random := r1, clock := t1\<rparr>))
     = map_sum id (\<lambda>s. s\<lparr>chromeTabs := [], timestamp := 0\<rparr>)
       (getSystemMemory (src\<lparr>math_random := r2, clock := t2\<rparr>))"
    by (simp add: getSystemMemory_def Let_def split: option.splits)
next
  assume h: "ps_chrome src = Some psOutput \<and> chrome_tab_list src = Some tabsOutput
       \<and> (\<forall>i<length (tab_lines tabsOutput). i < length (output_lines psOutput)
              \<and> truthy_num (renderer_memory (output_lines psOutput ! i)))"
  then have "\<forall>j<length (tab_lines tabsOutput).
      0 + j < length (map renderer_memory (output_lines psOutput))
      \<and> truthy_num (map renderer_memory (output_lines psOutput) ! (0 + j))"
    by simp
  then have "chrome_unsorted psOutput tabsOutput r1 = chrome_unsorted psOutput tabsOutput r2"
    unfolding chrome_unsorted_def by (rule tab_loop_no_random)
  then show "map_sum id (\<lambda>s. s\<lparr>timestamp := 0\<rparr>)
            (getSystemMemory (src\<lparr>math_random := r1, clock := t1\<rparr>))
          = map_sum id (\<lambda>s. s\<lparr>timestamp := 0\<rparr>)
            (getSystemMemory (src\<lparr>math_random := r2, clock := t2\<rparr>))"
    using h by (simp add: getSystemMemory_def Let_def getChromeTabs_def split: option.splits)
next
  assume "ps_chrome src = None \<or> chrome_tab_list src = None"
  then show "map_sum id (\<lambda>s. s\<lparr>timestamp := 0\<rparr>)
            (getSystemMemory (src\<lparr>math_random := r1, clock := t1\<rparr>))
          = map_sum id (\<lambda>s. s\<lparr>timestamp := 0\<rparr>)
            (getSystemMemory (src\<lparr>math_random := r2, clock := t2\<rparr>))"
    by (auto simp: getSystemMemory_def Let_def getChromeTabs_def split: option.splits)
qed

theorem snapshot_deterministic_witness:
  "map_sum id (\<lambda>s. s\<lparr>timestamp := 0\<rparr>)
      (getSystemMemory (sample_sources\<lparr>chrome_tab_list := Some (str ''Inbox|||https://mail'' @ [10]),
                                       math_random := \<lambda>k. 0, clock := 1\<rparr>))
   = map_sum id (\<lambda>s. s\<lparr>timestamp := 0\<rparr>)
      (getSystemMemory (sample_sources\<lparr>chrome_tab_list := Some (str ''Inbox|||https://mail'' @ [10]),
                                       math_random := \<lambda>k. 1 / 2, clock := 2\<rparr>))"
  using snapshot_deterministic
    [where src = "sample_sources\<lparr>chrome_tab_list := Some (str ''Inbox|||https://mail'' @ [10])\<rparr>"
       and ?r1.0 = "\<lambda>k. 0" and ?t1.0 = 1 and ?r2.0 = "\<lambda>k. 1 / 2" and ?t2.0 = 2
       and psOutput = "str ''max 8 0.0 0.1 410000 204800 ?? S 9:00AM 0:00.10 Google Chrome Helper (Renderer)'' @ [10]"
       and tabsOutput = "str ''Inbox|||https://mail'' @ [10]"]
    round_div_int [of 1024 204800]
  by (simp add: sample_sources_def eval_strings eval_numbers eval_tabs)

text \<open>
  The claim as stated fails on the sample inputs, which have two tabs and one renderer:
  the second tab's memory is the estimate, 50 in a run where \<^verbatim>\<open>Math.random()\<close> returns
  \<open>0\<close> and 100 in a run where it returns \<open>1/2\<close>.
\<close>

theorem snapshot_deterministic_counterexample:
  "getChromeTabs (ps_chrome sample_sources) (chrome_tab_list sample_sources) (\<lambda>k. 0)
     = [\<lparr>title = str ''Inbox'', url = str ''https://mail'', memory = Num 200\<rparr>,
        \<lparr>title = str ''News'', url = str ''https://news'', memory = Num 50\<rparr>]
   \<and> getChromeTabs (ps_chrome sample_sources) (chrome_tab_list sample_sources) (\<lambda>k. 1 / 2)
     = [\<lparr>title = str ''Inbox'', url = str ''https://mail'', memory = Num 200\<rparr>,
        \<lparr>title = str ''News'', url = str ''https://news'', memory = Num 100\<rparr>]
   \<and> map_sum id chromeTabs (getSystemMemory (sample_sources\<lparr>math_random := \<lambda>k. 0\<rparr>))
     \<noteq> map_sum id chromeTabs (getSystemMemory (sample_sources\<lparr>math_random := \<lambda>k. 1 / 2\<rparr>))"
proof -
  have a: "getChromeTabs (ps_chrome sample_sources) (chrome_tab_list sample_sources) (\<lambda>k. 0)
     = [\<lparr>title = str ''Inbox'', url = str ''https://mail'', memory = Num 200\<rparr>,
        \<lparr>title = str ''News'', url = str ''https://news'', memory = Num 50\<rparr>]"
    using round_div_int [of 1024 204800]
    by (simp add: sample_sources_def getChromeTabs_def js_sort_def compare_desc_def
        eval_strings eval_numbers eval_tabs random_estimate_0)
  have b: "getChromeTabs (ps_chrome sample_sources) (chrome_tab_list sample_sources) (\<lambda>k. 1 / 2)
     = [\<lparr>title = str ''Inbox'', url = str ''https://mail'', memory = Num 200\<rparr>,
        \<lparr>title = str ''News'', url = str ''https://news'', memory = Num 100\<rparr>]"
    using round_div_int [of 1024 204800] random_estimate_half
    by (simp add: sample_sources_def getChromeTabs_def js_sort_def compare_desc_def
        eval_strings eval_numbers eval_tabs)
  have c: "map_sum id chromeTabs (getSystemMemory (sample_sources\<lparr>math_random := r\<rparr>))
           = Inr (getChromeTabs (ps_chrome sample_sources) (chrome_tab_list sample_sources) r)" for r
    by (simp add: getSystemMemory_def Let_def sample_sources_def)
  show ?thesis using a b by (simp add: c)
qed

section \<open>Order of the lists\<close>

text \<open>
  Where the memory values of a list are numbers the list is in descending order and the
  sort is stable: for every memory value \<open>k\<close>, the entries of memory \<open>k\<close> stand in the
  order in which the loop produced them.  The scripts and the tabs never carry \<open>NaN\<close>; the
  workspaces all carry the same share, so that their list is the unsorted one.
\<close>

lemma lists_sorted_when_numeric:
  assumes "getSystemMemory src = Inr snap"
  shows "descending PythonProcess.memory (pythonProcesses snap)
    \<and> descending ChromeTab.memory (chromeTabs snap)
    \<and> ((\<forall>w \<in> set (vscodeWorkspaces snap). VSCodeWorkspace.memory w \<noteq> NaN)
        \<longrightarrow> descending VSCodeWorkspace.memory (vscodeWorkspaces snap))
    \<and> ((\<forall>s \<in> set (claudeSessions snap). ClaudeSession.memory s \<noteq> NaN)
        \<longrightarrow> descending ClaudeSession.memory (claudeSessions snap)
          \<and> (\<forall>out. ps_claude src = Some out \<longrightarrow>
                filter (\<lambda>s. ClaudeSession.memory s = k) (claudeSessions snap)
                = filter (\<lambda>s. ClaudeSession.memory s = k)
                    (claude_loop (lsof_cwd src) (output_lines out))))
    \<and> ((\<forall>a \<in> set (apps snap). AppMemory.memory a \<noteq> NaN)
        \<longrightarrow> descending AppMemory.memory (apps snap)
          \<and> (\<forall>out. ps_aux src = Some out \<longrightarrow>
                filter (\<lambda>a. AppMemory.memory a = k) (apps snap)
                = filter (\<lambda>a. AppMemory.memory a = k) (apps_unsorted appPatterns out)))
    \<and> (\<forall>out. ps_python src = Some out \<longrightarrow>
          filter (\<lambda>p. PythonProcess.memory p = k) (pythonProcesses snap)
          = filter (\<lambda>p. PythonProcess.memory p = k) (python_loop (output_lines out)))
    \<and> (\<forall>out tabs. ps_chrome src = Some out \<and> chrome_tab_list src = Some tabs \<longrightarrow>
          filter (\<lambda>t. ChromeTab.memory t = k) (chromeTabs snap)
          = filter (\<lambda>t. ChromeTab.memory t = k) (chrome_unsorted out tabs (math_random src)))
    \<and> (\<forall>out. ps_vscode src = Some out \<longrightarrow>
          vscodeWorkspaces snap = vscode_unsorted out (vscode_windows src))"
proof -
  from assms obtain psOutput where
    snap: "apps snap = app_groups appPatterns psOutput"
      "chromeTabs snap = getChromeTabs (ps_chrome src) (chrome_tab_list src) (math_random src)"
      "pythonProcesses snap = getPythonProcesses (ps_python src)"
      "claudeSessions snap = getClaudeSessions (ps_claude src) (lsof_cwd src)"
      "vscodeWorkspaces snap = getVSCodeWorkspaces (ps_vscode src) (vscode_windows src)"
    and ps: "ps_aux src = Some psOutput"
    by (auto simp: getSystemMemory_def Let_def split: option.splits)
  have nil: "descending mem []" for mem :: "'a \<Rightarrow> jsnum"
    by (simp add: descending_def)
  have py: "descending PythonProcess.memory (getPythonProcesses s)" for s
    by (cases s)
      (auto simp: getPythonProcesses_def nil intro!: descending_js_sort
        dest: python_loop_numeric)
  have ch: "descending ChromeTab.memory (getChromeTabs s t r)" for s t r
    by (cases s; cases t)
      (auto simp: getChromeTabs_def chrome_unsorted_def nil intro!: descending_js_sort
        dest: tab_loop_numeric)
  have vs_id: "getVSCodeWorkspaces (Some out) w = vscode_unsorted out w" for out w
    using vscode_unsorted_constant [of out w]
    by (auto simp: getVSCodeWorkspaces_def intro: js_sort_constant)
  have vs: "(\<forall>x \<in> set (getVSCodeWorkspaces s w). VSCodeWorkspace.memory x \<noteq> NaN)
        \<Longrightarrow> descending VSCodeWorkspace.memory (getVSCodeWorkspaces s w)" for s w
    by (cases s)
      (auto simp: getVSCodeWorkspaces_def nil set_js_sort intro!: descending_js_sort)
  have cl: "(\<forall>s \<in> set (getClaudeSessions c l). ClaudeSession.memory s \<noteq> NaN)
        \<Longrightarrow> descending ClaudeSession.memory (getClaudeSessions c l)" for c l
    by (cases c)
      (auto simp: getClaudeSessions_def nil set_js_sort intro!: descending_js_sort)
  have ap: "(\<forall>a \<in> set (app_groups rules out). AppMemory.memory a \<noteq> NaN)
        \<Longrightarrow> descending AppMemory.memory (app_groups rules out)" for rules out
    by (auto simp: app_groups_def set_js_sort intro!: descending_js_sort)
  show ?thesis
    using py ch vs cl ap ps
    by (simp add: snap getPythonProcesses_def getChromeTabs_def vs_id getClaudeSessions_def
        app_groups_def filter_js_sort)
qed

text \<open>
  C9.  In every snapshot each of the five lists should be in descending order of memory.
  The code breaks this through the missing check of C6: a line whose RSS column is absent
  gives a session whose memory is \<open>NaN\<close>, because \<^verbatim>\<open>NaN < 50\<close> is false.  The output of
  \<^verbatim>\<open>ps aux | grep "[c]laude"\<close> with a 100 MB process and the line \<^verbatim>\<open>claude 9\<close> gives two
  sessions, of memory 100 and \<open>NaN\<close>; the comparator is \<open>0\<close> on them, so the sort leaves
  them as the loop produced them, and the list is not in descending order; no arrangement
  of the two would be, \<open>NaN\<close> being comparable with nothing.
\<close>

theorem nan_session_breaks_order:
  "claude_loop (\<lambda>p. None)
     (output_lines (str ''max 8 0.0 0.1 410000 102400 ?? S 9:00AM 0:00.10 claude'' @ [10]
                    @ str ''claude 9'' @ [10]))
   = [\<lparr>workingDir = [], projectName = str ''Home'', memory = Num 100, pid = Num 8,
       isSubagent = True\<rparr>,
      \<lparr>workingDir = [], projectName = str ''Home'', memory = NaN, pid = Num 9,
       isSubagent = False\<rparr>]
   \<and> map_sum id claudeSessions
       (getSystemMemory
          (sample_sources
             \<lparr>ps_claude :=
                Some (str ''max 8 0.0 0.1 410000 102400 ?? S 9:00AM 0:00.10 claude'' @ [10]
                      @ str ''claude 9'' @ [10])\<rparr>))
     = Inr [\<lparr>workingDir = [], projectName = str ''Home'', memory = Num 100, pid = Num 8,
             isSubagent = True\<rparr>,
            \<lparr>workingDir = [], projectName = str ''Home'', memory = NaN, pid = Num 9,
             isSubagent = False\<rparr>]
   \<and> \<not> descending ClaudeSession.memory
         [\<lparr>workingDir = [], projectName = str ''Home'', memory = Num 100, pid = Num 8,
           isSubagent = True\<rparr>,
          \<lparr>workingDir = [], projectName = str ''Home'', memory = NaN, pid = Num 9,
           isSubagent = False\<rparr>]
   \<and> \<not> descending ClaudeSession.memory
         [\<lparr>workingDir = [], projectName = str ''Home'', memory = NaN, pid = Num 9,
           isSubagent = False\<rparr>,
          \<lparr>workingDir = [], projectName = str ''Home'', memory = Num 100, pid = Num 8,
           isSubagent = True\<rparr>]"
proof -
  have run: "map_sum id claudeSessions (getSystemMemory (sample_sources\<lparr>ps_claude := x\<rparr>))
             = Inr (getClaudeSessions x (\<lambda>p. None))" for x
    by (simp add: getSystemMemory_def Let_def sample_sources_def)
  show ?thesis
    unfolding run
    using round_div_int [of 1024 102400]
    by (simp add: eval_strings eval_numbers eval_snapshot descending_def)
qed

section \<open>Application groups\<close>

text \<open>
  C1.  For every rule list and every process table, the group named \<open>g\<close> is in the output
  exactly when some line is owned by \<open>g\<close>, that is when \<open>g\<close> names the first rule, in list
  order, whose pattern matches the line's command; its process count is the number of the
  lines it owns and its memory the rounded sum of their RSS.  A line has one owner at most,
  so it is counted in one group at most; a line that no rule matches is owned by no group
  and counted nowhere; a group that owns no line is absent; and no two entries of the
  output carry the same name.
\<close>

theorem first_match_owns:
  "((\<exists>a \<in> set (app_groups rules psOutput). AppMemory.name a = g)
      = (owned_by rules g (table_lines psOutput) \<noteq> []))
   \<and> (\<forall>a \<in> set (app_groups rules psOutput). AppMemory.name a = g \<longrightarrow>
         AppMemory.processes a = Num (of_nat (length (owned_by rules g (table_lines psOutput))))
         \<and> AppMemory.memory a
             = math_round (foldl js_add (Num 0) (map rss_mb (owned_by rules g (table_lines psOutput)))))
   \<and> distinct (map AppMemory.name (app_groups rules psOutput))
   \<and> (first_match rules line = Some app \<longrightarrow>
         (\<exists>i<length rules. rules ! i = app \<and> pattern app (command_of (line_parts line))
            \<and> (\<forall>j<i. \<not> pattern (rules ! j) (command_of (line_parts line)))))
   \<and> (line \<in> set (owned_by rules g lines) \<and> line \<in> set (owned_by rules g' lines) \<longrightarrow> g = g')"
proof -
  let ?m = "apps_loop rules (table_lines psOutput) []"
  let ?owned = "owned_by rules g (table_lines psOutput)"
  have t: "totals ?m g = (if ?owned = [] then None else Some (add_lines (Num 0, Num 0) ?owned))"
    by (simp add: totals_apps_loop) (simp add: totals_def)
  have cnt: "snd (add_lines (Num 0, Num 0) ?owned) = Num (of_nat (length ?owned))"
    using count_lines [of 0 ?owned] by (simp add: add_lines_def)
  have mem: "fst (add_lines (Num 0, Num 0) ?owned) = foldl js_add (Num 0) (map rss_mb ?owned)"
    by (simp add: add_lines_def)
  have 1: "(\<exists>a \<in> set (app_groups rules psOutput). AppMemory.name a = g) = (?owned \<noteq> [])"
  proof -
    have "(\<exists>a. a \<in> set (app_groups rules psOutput) \<and> AppMemory.name a = g)
          = (\<exists>m k c. map_of ?m g = Some (m, k, c))"
      unfolding app_groups_member by auto
    also have "\<dots> = (totals ?m g \<noteq> None)"
      by (auto simp: totals_def)
    also have "\<dots> = (?owned \<noteq> [])"
      using t by simp
    finally show ?thesis by (simp add: Bex_def)
  qed
  have 2: "\<forall>a \<in> set (app_groups rules psOutput). AppMemory.name a = g \<longrightarrow>
         AppMemory.processes a = Num (of_nat (length ?owned))
         \<and> AppMemory.memory a = math_round (foldl js_add (Num 0) (map rss_mb ?owned))"
  proof (intro ballI impI)
    fix a assume "a \<in> set (app_groups rules psOutput)" and "AppMemory.name a = g"
    then obtain m k c where mk: "map_of ?m g = Some (m, k, c)"
      and a: "a = \<lparr>AppMemory.name = g, memory = math_round m, processes = k, color = c\<rparr>"
      using app_groups_member [of a rules psOutput g] by auto
    from mk have "totals ?m g = Some (m, k)" by (simp add: totals_def)
    with t have "add_lines (Num 0, Num 0) ?owned = (m, k)" by (simp split: if_splits)
    with cnt mem a show "AppMemory.processes a = Num (of_nat (length ?owned))
         \<and> AppMemory.memory a = math_round (foldl js_add (Num 0) (map rss_mb ?owned))"
      by simp
  qed
  have 3: "distinct (map AppMemory.name (app_groups rules psOutput))"
    unfolding app_groups_def distinct_map_js_sort apps_unsorted_names
    by (rule distinct_apps_loop) simp
  have 4: "first_match rules line = Some app \<longrightarrow>
         (\<exists>i<length rules. rules ! i = app \<and> pattern app (command_of (line_parts line))
            \<and> (\<forall>j<i. \<not> pattern (rules ! j) (command_of (line_parts line))))"
    by (auto simp: first_match_def Let_def find_Some_iff split: if_splits)
  have 5: "line \<in> set (owned_by rules g lines) \<and> line \<in> set (owned_by rules g' lines) \<longrightarrow> g = g'"
    by (auto simp: owned_by_def)
  show ?thesis using 1 2 3 4 5 by blast
qed

theorem first_match_owns_witness:
  "length (owned_by appPatterns (str ''Python'') (table_lines sample_table)) = 1"
  using first_match_owns [where rules = appPatterns and psOutput = sample_table
      and g = "str ''Python''" and line = "[]" and lines = "[]" and g' = "[]"
      and app = "hd appPatterns"]
  by (simp add: sample_groups)

section \<open>Script labels\<close>

text \<open>
  C8 (amended).  When the command line has a path component \<open>stem.py\<close>, with a non-empty
  stem of characters that are neither white space nor a slash, delimited on both sides by
  white space, a slash or an end of the line, and the pattern has no earlier match, that
  is, before the component no \<^verbatim>\<open>.py\<close> directly follows a character that is neither white
  space nor a slash, then the label is that component verbatim, whatever tool markers the
  command line contains and whatever the memory is.  For a token with directories the
  label is thus the file's base name.
\<close>

theorem py_token_label:
  assumes "stem \<noteq> []" and "\<forall>c \<in> set stem. py_class c"
    and "pre = [] \<or> \<not> py_class (last pre)" and "post = [] \<or> \<not> py_class (hd post)"
    and "\<forall>c. py_class c \<longrightarrow> \<not> includes_str pre (c # str ''.py'')"
  shows "script_label (pre @ stem @ str ''.py'' @ post) mem = Some (stem @ str ''.py'')"
proof -
  have "py_match (pre @ stem @ str ''.py'' @ post) = py_match (stem @ str ''.py'' @ post)"
    using assms(5,3) by (rule py_match_skip)
  also have "\<dots> = Some (stem @ str ''.py'')"
    using py_match_at_token [OF assms(1,2,4)] assms(1) by (cases stem) simp_all
  finally show ?thesis by (simp add: script_label_def)
qed

theorem py_token_label_witness:
  "script_label (str ''/Users/max/.pyenv/shims/python3 ingest_pipeline.py --voice-mode'') (Num 5)
   = Some (str ''ingest_pipeline.py'')"
  using py_token_label [of "str ''ingest_pipeline''" "str ''/Users/max/.pyenv/shims/python3 ''"
      "str '' --voice-mode''" "Num 5"]
  by (simp add: str_def py_class_def is_ws_def)

text \<open>
  The claim as stated fails twice.  In \<^verbatim>\<open>python3 a.pyc b.py\<close> the only token with the
  suffix is \<^verbatim>\<open>b.py\<close> and the label is \<^verbatim>\<open>a.py\<close>, cut out of the earlier token; in
  \<^verbatim>\<open>python3 /srv/jobs/run.py\<close> the token is the whole path and the label its last
  component.
\<close>

theorem py_token_label_counterexample:
  "split_ws (str ''python3 a.pyc b.py'') = [str ''python3'', str ''a.pyc'', str ''b.py'']
   \<and> script_label (str ''python3 a.pyc b.py'') (Num 200) = Some (str ''a.py'')
   \<and> split_ws (str ''python3 /srv/jobs/run.py'') = [str ''python3'', str ''/srv/jobs/run.py'']
   \<and> script_label (str ''python3 /srv/jobs/run.py'') (Num 200) = Some (str ''run.py'')"
  by (simp add: eval_strings script_label_def py_match_at_def py_class_def)

section \<open>Lines with few fields\<close>

text \<open>
  The classifier skips a line of fewer than 11 fields.
\<close>

lemma apps_loop_short_line:
  "length (line_parts line) < 11 \<Longrightarrow> apps_loop rules (line # lines) m = apps_loop rules lines m"
  by (simp add: Let_def)

text \<open>
  C6.  A line of fewer than 11 fields should produce no record on any parsing path.  The
  classifier does skip it, but the loops of \<open>getPythonProcesses\<close> and \<open>getClaudeSessions\<close>
  have no such check: the 6-field line \<^verbatim>\<open>python 7 0.0 0.1 410000 999999\<close> gives a Python
  entry labelled \<^verbatim>\<open>...\<close> (the empty command, truncated), and the 2-field line
  \<^verbatim>\<open>claude 9\<close> gives a session whose memory is \<open>NaN\<close>.
\<close>

theorem short_lines_not_skipped:
  "length (line_parts (str ''python 7 0.0 0.1 410000 999999'')) = 6
   \<and> apps_loop appPatterns [str ''python 7 0.0 0.1 410000 999999''] [] = []
   \<and> getPythonProcesses (Some (str ''python 7 0.0 0.1 410000 999999'' @ [10]))
     = [\<lparr>script = str ''...'', memory = Num 977, pid = Num 7\<rparr>]
   \<and> length (line_parts (str ''claude 9'')) = 2
   \<and> apps_loop appPatterns [str ''claude 9''] [] = []
   \<and> getClaudeSessions (Some (str ''claude 9'' @ [10])) (\<lambda>p. None)
     = [\<lparr>workingDir = [], projectName = str ''Home'', memory = NaN, pid = Num 9,
         isSubagent = False\<rparr>]"
  using round_div_int [of 1024 999999]
  by (simp add: eval_strings eval_numbers eval_snapshot script_label_def py_match_at_def
      py_class_def substring0_def)

end
